theory Spec2Isabelle
  imports Main "HOL-Library.Word"
begin

unbundle bit_operations_syntax

section \<open>Data model of bfttf.c\<close>

type_synonym u8 = "8 word"
type_synonym u32 = "32 word"
type_synonym u64 = "64 word"

text \<open>
  A C pointer is either \<open>NULL\<close> or a block of the heap together with a byte offset
  into it: \<open>malloc\<close> returns \<open>Ptr b 0\<close> and \<open>p + n\<close> moves the offset.
\<close>

datatype pointer = NULL | Ptr nat nat

fun ptr_add :: "pointer \<Rightarrow> nat \<Rightarrow> pointer" where
  "ptr_add NULL n = NULL"
| "ptr_add (Ptr b off) n = Ptr b (off + n)"

text \<open>
  The heap is the list of all blocks ever allocated; a freed block is \<open>None\<close>.
  Block numbers are never handed out twice, so a pointer to a freed block stays dangling.
\<close>

type_synonym heap = "u8 list option list"

definition block :: "heap \<Rightarrow> nat \<Rightarrow> u8 list option" where
  "block h b = (if b < length h then h ! b else None)"

text \<open>
  \<open>malloc\<close>: a fresh block of \<open>n\<close> bytes. Its contents are indeterminate in C; the
  program never reads them before overwriting the block, so they are modelled as zeros.
\<close>

definition malloc :: "heap \<Rightarrow> nat \<Rightarrow> pointer \<times> heap" where
  "malloc h n = (Ptr (length h) 0, h @ [Some (replicate n 0)])"

text \<open>
  \<open>free\<close>: the result \<open>None\<close> stands for undefined behaviour, which is what C
  gives for a pointer that is not the start of a live block (a double free, for one).
  \<open>free(NULL)\<close> does nothing.
\<close>

fun free :: "heap \<Rightarrow> pointer \<Rightarrow> heap option" where
  "free h NULL = Some h"
| "free h (Ptr b off) =
     (if off = 0 \<and> block h b \<noteq> None then Some (h[b := None]) else None)"

text \<open>
  \<open>BfttfFontInfo\<close>; the field \<open>size\<close> is named \<open>size_info\<close> here.
\<close>

record BfttfFontInfo =
  title_id :: u64
  path :: string
  size_info :: u32
  data :: pointer

text \<open>
  \<open>BfttfFontData\<close> is declared in bfttf.h; its three fields are the ones
  \<open>bfttfGetFontByType\<close> assigns, with the types of the assigned expressions.
\<close>

record BfttfFontData =
  type_data :: u8
  size_data :: u32
  ptr :: pointer

text \<open>
  The globals of bfttf.c and the heap. The mutex is left out: the model is sequential.
\<close>

record bfttf_state =
  g_bfttfInterfaceInit :: bool
  g_fontInfo :: "BfttfFontInfo list"
  heap :: heap

definition g_fontInfo_init :: "BfttfFontInfo list" where
  "g_fontInfo_init =
    [\<lparr>title_id = 0x0100000000000811, path = ''/nintendo_udsg-r_std_003.bfttf'', size_info = 0, data = NULL\<rparr>,
     \<lparr>title_id = 0x0100000000000810, path = ''/nintendo_ext_003.bfttf'', size_info = 0, data = NULL\<rparr>,
     \<lparr>title_id = 0x0100000000000810, path = ''/nintendo_ext2_003.bfttf'', size_info = 0, data = NULL\<rparr>,
     \<lparr>title_id = 0x0100000000000812, path = ''/nintendo_udsg-r_ko_003.bfttf'', size_info = 0, data = NULL\<rparr>,
     \<lparr>title_id = 0x0100000000000814, path = ''/nintendo_udsg-r_org_zh-cn_003.bfttf'', size_info = 0, data = NULL\<rparr>,
     \<lparr>title_id = 0x0100000000000814, path = ''/nintendo_udsg-r_ext_zh-cn_003.bfttf'', size_info = 0, data = NULL\<rparr>,
     \<lparr>title_id = 0x0100000000000813, path = ''/nintendo_udjxh-db_zh-tw_003.bfttf'', size_info = 0, data = NULL\<rparr>]"

text \<open>The state at program start: the static initialisers, and an empty heap.\<close>

definition initial_state :: bfttf_state where
  "initial_state = \<lparr>g_bfttfInterfaceInit = False, g_fontInfo = g_fontInfo_init, heap = []\<rparr>"

text \<open>
  \<open>g_fontInfoCount = MAX_ELEMENTS(g_fontInfo)\<close>: the number of table entries. The loops
  over the table count up to it in a \<open>u32\<close> that cannot wrap, so their counters are
  natural numbers here.
\<close>

definition g_fontInfoCount :: "bfttf_state \<Rightarrow> nat" where
  "g_fontInfoCount s = length (g_fontInfo s)"

definition g_bfttfKey :: u32 where
  "g_bfttfKey = 0x06186249"

text \<open>\<open>IS_ALIGNED(x, y)\<close> of nxdt_utils.h.\<close>

definition IS_ALIGNED :: "u32 \<Rightarrow> u32 \<Rightarrow> bool" where
  "IS_ALIGNED x y = (x AND (y - 1) = 0)"

section \<open>Memory access\<close>

text \<open>
  A \<open>u32\<close> is read and written through a \<open>u32 *\<close> in the byte order of the target,
  which is little-endian (AArch64). An access that leaves the block is \<open>None\<close>.
\<close>

definition load_u32 :: "u8 list \<Rightarrow> nat \<Rightarrow> u32 option" where
  "load_u32 buf p =
     (if p + 4 \<le> length buf
      then Some (ucast (buf ! p) OR push_bit 8 (ucast (buf ! (p + 1)))
                 OR push_bit 16 (ucast (buf ! (p + 2))) OR push_bit 24 (ucast (buf ! (p + 3))))
      else None)"

definition store_u32 :: "u8 list \<Rightarrow> nat \<Rightarrow> u32 \<Rightarrow> u8 list option" where
  "store_u32 buf p w =
     (if p + 4 \<le> length buf
      then Some (buf[p := ucast w, p + 1 := ucast (drop_bit 8 w),
                     p + 2 := ucast (drop_bit 16 w), p + 3 := ucast (drop_bit 24 w)])
      else None)"

section \<open>bfttfDecodeFont\<close>

text \<open>
  The body of the loop, \<open>*ptr = (*ptr ^ g_bfttfKey)\<close> with \<open>ptr\<close> at byte \<open>p\<close> of the
  block.
\<close>

definition xor_u32_at :: "u8 list \<Rightarrow> nat \<Rightarrow> u8 list option" where
  "xor_u32_at buf p =
     (case load_u32 buf p of
        None \<Rightarrow> None
      | Some w \<Rightarrow> store_u32 buf p (w XOR g_bfttfKey))"

text \<open>
  \<open>for(u32 i = 8; i < (font_info->size - 8); i += 4)\<close>, on the block that holds the
  font, \<open>off\<close> being the offset of \<open>font_info->data\<close> in it. The counter is a \<open>u32\<close> and
  \<open>i += 4\<close> wraps. \<open>None\<close>: the loop does not return (it runs forever, or it reads or
  writes outside the block).
\<close>

partial_function (option) decode_loop :: "u32 \<Rightarrow> u32 \<Rightarrow> nat \<Rightarrow> u8 list \<Rightarrow> u8 list option" where
  "decode_loop i bound off buf =
     (if i < bound
      then (case xor_u32_at buf (off + unat i) of
              None \<Rightarrow> None
            | Some buf' \<Rightarrow> decode_loop (i + 4) bound off buf')
      else Some buf)"

text \<open>
  \<open>bfttfDecodeFont\<close>. The argument is \<open>None\<close> for a null \<open>font_info\<close>. The result is
  the returned flag and the heap; \<open>None\<close> when the call does not return (\<open>data\<close> is not
  a pointer into a live block, or the loop does not return).
\<close>

definition bfttfDecodeFont :: "heap \<Rightarrow> BfttfFontInfo option \<Rightarrow> (bool \<times> heap) option" where
  "bfttfDecodeFont h font_info =
     (case font_info of
        None \<Rightarrow> Some (False, h)
      | Some fi \<Rightarrow>
          if size_info fi \<le> 8 \<or> \<not> IS_ALIGNED (size_info fi) 4 \<or> data fi = NULL
          then Some (False, h)
          else (case data fi of
                  NULL \<Rightarrow> Some (False, h)
                | Ptr b off \<Rightarrow>
                    (case block h b of
                       None \<Rightarrow> None
                     | Some buf \<Rightarrow>
                         (case decode_loop 8 (size_info fi - 8) off buf of
                            None \<Rightarrow> None
                          | Some buf' \<Rightarrow> Some (True, h[b := Some buf'])))))"

declare decode_loop.simps [code]

section \<open>bfttfGetFontByType\<close>

text \<open>
  The enumeration constant \<open>BfttfFontType_Total\<close> is declared in bfttf.h and is the first
  argument here. \<open>font_data\<close> is \<open>None\<close> for a null pointer and otherwise holds what
  the caller's structure contains. The result is the returned flag, the caller's structure
  and the globals after the call; it is \<open>None\<close> when the call reads \<open>g_fontInfo\<close>
  beyond its last element, which a \<open>BfttfFontType_Total\<close> above the number of table
  entries would allow.
\<close>

definition bfttfGetFontByType ::
  "nat \<Rightarrow> bfttf_state \<Rightarrow> BfttfFontData option \<Rightarrow> u8 \<Rightarrow>
     (bool \<times> BfttfFontData option \<times> bfttf_state) option" where
  "bfttfGetFontByType BfttfFontType_Total s font_data font_type =
     (case font_data of
        None \<Rightarrow> Some (False, font_data, s)
      | Some fd \<Rightarrow>
          if BfttfFontType_Total \<le> unat font_type then Some (False, font_data, s)
          else if g_fontInfoCount s \<le> unat font_type then None
          else
            (let font_info = g_fontInfo s ! unat font_type in
             if size_info font_info \<le> 8 \<or> data font_info = NULL
             then Some (False, font_data, s)
             else Some (True,
                        Some (fd\<lparr>type_data := font_type,
                                 size_data := size_info font_info - 8,
                                 ptr := ptr_add (data font_info) 8\<rparr>),
                        s)))"

text \<open>What a caller reads through a pointer: \<open>n\<close> bytes from \<open>p\<close> on.\<close>

fun read_bytes :: "heap \<Rightarrow> pointer \<Rightarrow> nat \<Rightarrow> u8 list option" where
  "read_bytes h NULL n = None"
| "read_bytes h (Ptr b off) n =
     (case block h b of
        None \<Rightarrow> None
      | Some buf \<Rightarrow> if off + n \<le> length buf then Some (take n (drop off buf)) else None)"

text \<open>
  What a callee does that fills memory through a pointer: the bytes replace those of the
  block from \<open>p\<close> on. \<open>None\<close> when they do not fit into a live block.
\<close>

fun write_bytes :: "heap \<Rightarrow> pointer \<Rightarrow> u8 list \<Rightarrow> heap option" where
  "write_bytes h NULL bytes = None"
| "write_bytes h (Ptr b off) bytes =
     (case block h b of
        None \<Rightarrow> None
      | Some buf \<Rightarrow>
          if off + length bytes \<le> length buf
          then Some (h[b := Some (take off buf @ bytes @ drop (off + length bytes) buf)])
          else None)"

section \<open>bfttfExit\<close>

text \<open>
  The loop of \<open>bfttfExit\<close> from entry \<open>i\<close> on, \<open>n\<close> being \<open>g_fontInfoCount\<close>:
  the size is cleared, the buffer is freed when the pointer is not null, and the pointer
  itself is left as it is.
\<close>

function exit_loop :: "nat \<Rightarrow> nat \<Rightarrow> bfttf_state \<Rightarrow> bfttf_state option" where
  "exit_loop i n s =
     (if i < n
      then (let font_info = (g_fontInfo s ! i)\<lparr>size_info := 0\<rparr>;
                s1 = s\<lparr>g_fontInfo := (g_fontInfo s)[i := font_info]\<rparr>
            in if data font_info \<noteq> NULL
               then (case free (heap s1) (data font_info) of
                       None \<Rightarrow> None
                     | Some h \<Rightarrow> exit_loop (Suc i) n (s1\<lparr>heap := h\<rparr>))
               else exit_loop (Suc i) n s1)
      else Some s)"
  by pat_completeness auto
termination
  by (relation "measure (\<lambda>(i, n, s). n - i)") auto

definition bfttfExit :: "bfttf_state \<Rightarrow> bfttf_state option" where
  "bfttfExit s =
     (case exit_loop 0 (g_fontInfoCount s) s of
        None \<Rightarrow> None
      | Some s' \<Rightarrow> Some (s'\<lparr>g_bfttfInterfaceInit := False\<rparr>))"

section \<open>bfttfInitialize\<close>

text \<open>
  The functions of title.c, nca.c and romfs.c and the allocator are outside this file.
  Each is called at most once in an iteration of the loop, so what it returns is given as
  a function of the iteration \<open>i\<close> in which the call is made and of the arguments that
  identify the title or the file. A RomFS file entry is given by the bytes of the file;
  its \<open>size\<close> field, a \<open>u64\<close>, is their number, and a successful
  \<open>romfsReadFileEntryData\<close> of \<open>size\<close> bytes writes them to the buffer.
\<close>

record env =
  calloc_nca_ctx :: bool
  titleGetInfoFromStorageByTitleId :: "nat \<Rightarrow> u64 \<Rightarrow> bool"
  ncaInitializeContext :: "nat \<Rightarrow> u64 \<Rightarrow> bool"
  romfsInitializeContext :: "nat \<Rightarrow> u64 \<Rightarrow> bool"
  romfsGetFileEntryByPath :: "nat \<Rightarrow> string \<Rightarrow> u8 list option"
  malloc_ok :: "nat \<Rightarrow> bool"
  romfsReadFileEntryData :: "nat \<Rightarrow> bool"

text \<open>The calls made to the title, NCA and RomFS code, in the order they are made.\<close>

datatype event =
  Call_titleGetInfoFromStorageByTitleId u64
| Call_ncaInitializeContext u64
| Call_romfsInitializeContext u64
| Call_romfsGetFileEntryByPath string
| Call_romfsReadFileEntryData string

text \<open>
  The local variables of \<open>bfttfInitialize\<close> that live across iterations, the globals
  and the calls made so far. \<open>count\<close> is at most the number of table entries.
\<close>

record init_locals =
  count :: nat
  prev_title_id :: u64
  st :: bfttf_state
  calls :: "event list"

text \<open>
  The three steps taken when the title ID differs from the previous one: whether all of
  them succeeded, and the calls made.
\<close>

definition open_container :: "env \<Rightarrow> nat \<Rightarrow> u64 \<Rightarrow> bool \<times> event list" where
  "open_container e i tid =
     (if \<not> titleGetInfoFromStorageByTitleId e i tid
      then (False, [Call_titleGetInfoFromStorageByTitleId tid])
      else if \<not> ncaInitializeContext e i tid
      then (False, [Call_titleGetInfoFromStorageByTitleId tid, Call_ncaInitializeContext tid])
      else if \<not> romfsInitializeContext e i tid
      then (False, [Call_titleGetInfoFromStorageByTitleId tid, Call_ncaInitializeContext tid,
                    Call_romfsInitializeContext tid])
      else (True, [Call_titleGetInfoFromStorageByTitleId tid, Call_ncaInitializeContext tid,
                   Call_romfsInitializeContext tid]))"

definition set_font_info :: "bfttf_state \<Rightarrow> nat \<Rightarrow> BfttfFontInfo \<Rightarrow> bfttf_state" where
  "set_font_info s i fi = s\<lparr>g_fontInfo := (g_fontInfo s)[i := fi]\<rparr>"

text \<open>
  The rest of an iteration, from \<open>romfsGetFileEntryByPath\<close> to \<open>count++\<close>. Every
  \<open>continue\<close> of the source is a branch that returns without counting.
\<close>

definition load_font :: "env \<Rightarrow> nat \<Rightarrow> init_locals \<Rightarrow> init_locals option" where
  "load_font e i l =
     (let s = st l;
          font_info = g_fontInfo s ! i;
          l1 = l\<lparr>calls := calls l @ [Call_romfsGetFileEntryByPath (path font_info)]\<rparr>
      in case romfsGetFileEntryByPath e i (path font_info) of
           None \<Rightarrow> Some l1
         | Some file \<Rightarrow>
             (let fsize = (word_of_nat (length file) :: u64) in
              if fsize = 0 then Some l1
              else if \<not> malloc_ok e i
              then Some (l1\<lparr>st := set_font_info s i (font_info\<lparr>data := NULL\<rparr>)\<rparr>)
              else
                (let (p, h1) = malloc (heap s) (unat fsize);
                     l2 = l1\<lparr>calls := calls l1 @ [Call_romfsReadFileEntryData (path font_info)]\<rparr>
                 in if \<not> romfsReadFileEntryData e i
                    then (case free h1 p of
                            None \<Rightarrow> None
                          | Some h2 \<Rightarrow>
                              Some (l2\<lparr>st := set_font_info (s\<lparr>heap := h2\<rparr>) i
                                                (font_info\<lparr>data := NULL\<rparr>)\<rparr>))
                    else
                      (case write_bytes h1 p (take (unat fsize) file) of
                         None \<Rightarrow> None
                       | Some h2 \<Rightarrow>
                           (let fi = font_info\<lparr>data := p, size_info := ucast fsize\<rparr>
                            in case bfttfDecodeFont h2 (Some fi) of
                                 None \<Rightarrow> None
                               | Some (False, h3) \<Rightarrow>
                                   (case free h3 (data fi) of
                                      None \<Rightarrow> None
                                    | Some h4 \<Rightarrow>
                                        Some (l2\<lparr>st := set_font_info (s\<lparr>heap := h4\<rparr>) i
                                                          (fi\<lparr>data := NULL, size_info := 0\<rparr>)\<rparr>))
                               | Some (True, h3) \<Rightarrow>
                                   Some (l2\<lparr>st := set_font_info (s\<lparr>heap := h3\<rparr>) i fi,
                                            count := count l2 + 1\<rparr>))))))"

text \<open>One iteration of the loop over the table.\<close>

definition init_body :: "env \<Rightarrow> nat \<Rightarrow> init_locals \<Rightarrow> init_locals option" where
  "init_body e i l =
     (let font_info = g_fontInfo (st l) ! i in
      if title_id font_info \<noteq> prev_title_id l
      then (case open_container e i (title_id font_info) of
              (False, evs) \<Rightarrow> Some (l\<lparr>calls := calls l @ evs\<rparr>)
            | (True, evs) \<Rightarrow>
                load_font e i (l\<lparr>prev_title_id := title_id font_info, calls := calls l @ evs\<rparr>))
      else load_font e i l)"

function init_loop :: "env \<Rightarrow> nat \<Rightarrow> nat \<Rightarrow> init_locals \<Rightarrow> init_locals option" where
  "init_loop e i n l =
     (if i < n
      then (case init_body e i l of
              None \<Rightarrow> None
            | Some l' \<Rightarrow> init_loop e (Suc i) n l')
      else Some l)"
  by pat_completeness auto
termination
  by (relation "measure (\<lambda>(e, i, n, l). n - i)") auto

text \<open>
  \<open>bfttfInitialize\<close>: the returned flag, the globals and the calls made. The temporary
  NCA context is allocated and freed inside the call and is represented only by whether
  its \<open>calloc\<close> succeeds; \<open>romfsFreeContext\<close> touches none of the globals.
\<close>

definition bfttfInitialize :: "env \<Rightarrow> bfttf_state \<Rightarrow> (bool \<times> bfttf_state \<times> event list) option" where
  "bfttfInitialize e s =
     (if g_bfttfInterfaceInit s then Some (True, s, [])
      else if \<not> calloc_nca_ctx e then Some (False, s, [])
      else (case init_loop e 0 (g_fontInfoCount s)
                   \<lparr>count = 0, prev_title_id = 0, st = s, calls = []\<rparr> of
              None \<Rightarrow> None
            | Some l \<Rightarrow>
                Some (0 < count l, (st l)\<lparr>g_bfttfInterfaceInit := (0 < count l)\<rparr>, calls l)))"

section \<open>Notions used in the statements\<close>

text \<open>
  Byte \<open>j\<close> of the key as it lies in memory, and a buffer whose bytes from \<open>lo\<close> up to
  \<open>hi\<close> are each combined with the key byte of their position in the word.
\<close>

definition key_byte :: "nat \<Rightarrow> u8" where
  "key_byte j = ucast (drop_bit (8 * j) g_bfttfKey)"

definition xor_bytes :: "u8 list \<Rightarrow> nat \<Rightarrow> nat \<Rightarrow> u8 list" where
  "xor_bytes buf lo hi =
     map (\<lambda>p. if lo \<le> p \<and> p < hi then buf ! p XOR key_byte ((p - lo) mod 4) else buf ! p)
       [0..<length buf]"

text \<open>
  A pointer that \<open>free\<close> accepts: the start of a block that is still allocated. The
  buffers of a table are valid when every pointer that is not null is such a pointer and
  no two entries hold the same one.
\<close>

definition live :: "heap \<Rightarrow> pointer \<Rightarrow> bool" where
  "live h p = (case p of NULL \<Rightarrow> False | Ptr b off \<Rightarrow> off = 0 \<and> block h b \<noteq> None)"

definition slots_valid :: "heap \<Rightarrow> BfttfFontInfo list \<Rightarrow> bool" where
  "slots_valid h fis =
     (distinct (filter (\<lambda>p. p \<noteq> NULL) (map data fis)) \<and>
      list_all (\<lambda>fi. data fi = NULL \<or> live h (data fi)) fis)"

section \<open>Outcome of an iteration of bfttfInitialize\<close>

text \<open>
  What the environment grants entry \<open>i\<close>: \<open>open_ok\<close> when the three steps that open
  the container succeed, \<open>fetch_ok\<close> when the file is found, is not empty, can be
  allocated and read, and has a size (as stored in the \<open>u32\<close> field) that the decoder
  accepts.
\<close>

definition fetch_ok :: "env \<Rightarrow> nat \<Rightarrow> BfttfFontInfo \<Rightarrow> bool" where
  "fetch_ok e i fi =
     (case romfsGetFileEntryByPath e i (path fi) of
        None \<Rightarrow> False
      | Some file \<Rightarrow>
          (let fsize = (word_of_nat (length file) :: u64)
           in fsize \<noteq> 0 \<and> malloc_ok e i \<and> romfsReadFileEntryData e i \<and>
              8 < (ucast fsize :: u32) \<and> IS_ALIGNED (ucast fsize) 4))"

definition open_ok :: "env \<Rightarrow> nat \<Rightarrow> BfttfFontInfo \<Rightarrow> bool" where
  "open_ok e i fi =
     (titleGetInfoFromStorageByTitleId e i (title_id fi) \<and> ncaInitializeContext e i (title_id fi) \<and>
      romfsInitializeContext e i (title_id fi))"

text \<open>The block that holds a font after a successful fetch and decode of \<open>file\<close>.\<close>

definition decoded_file :: "u8 list \<Rightarrow> u8 list" where
  "decoded_file file =
     (let fsize = (word_of_nat (length file) :: u64)
      in xor_bytes (take (unat fsize) file) 8 (unat (ucast fsize :: u32) - 8))"

text \<open>
  A slot \<open>fi'\<close> that holds the font of entry \<open>i\<close> (originally \<open>fi\<close>) in a block
  allocated by this call (block number at least \<open>n0\<close>), and a slot that was skipped:
  unchanged, or with the pointer cleared, or with pointer and size cleared.
\<close>

definition slot_loaded :: "env \<Rightarrow> nat \<Rightarrow> nat \<Rightarrow> heap \<Rightarrow> BfttfFontInfo \<Rightarrow> BfttfFontInfo \<Rightarrow> bool" where
  "slot_loaded e i n0 h fi fi' =
     (case romfsGetFileEntryByPath e i (path fi) of
        None \<Rightarrow> False
      | Some file \<Rightarrow>
          fetch_ok e i fi \<and> title_id fi' = title_id fi \<and> path fi' = path fi \<and>
          size_info fi' = ucast (word_of_nat (length file) :: u64) \<and> 8 < size_info fi' \<and>
          (case data fi' of
             NULL \<Rightarrow> False
           | Ptr b off \<Rightarrow> off = 0 \<and> n0 \<le> b \<and> block h b = Some (decoded_file file)))"

definition slot_skipped :: "BfttfFontInfo \<Rightarrow> BfttfFontInfo \<Rightarrow> bool" where
  "slot_skipped fi fi' =
     (fi' = fi \<or> fi' = fi\<lparr>data := NULL\<rparr> \<or> fi' = fi\<lparr>data := NULL, size_info := 0\<rparr>)"

text \<open>
  The title ID that iteration \<open>i\<close> finds in \<open>prev_title_id\<close>: 0 at the start, and
  afterwards the title ID of the last entry before \<open>i\<close> for which the container was
  opened, with success. The container is ready for entry \<open>i\<close> when the entry has that
  title ID, so that nothing is opened, or when the open made for it succeeds.
\<close>

fun remembered_title_id :: "env \<Rightarrow> BfttfFontInfo list \<Rightarrow> nat \<Rightarrow> u64" where
  "remembered_title_id e fis 0 = 0"
| "remembered_title_id e fis (Suc i) =
     (if title_id (fis ! i) \<noteq> remembered_title_id e fis i \<and> open_ok e i (fis ! i)
      then title_id (fis ! i)
      else remembered_title_id e fis i)"

definition container_ready :: "env \<Rightarrow> BfttfFontInfo list \<Rightarrow> nat \<Rightarrow> bool" where
  "container_ready e fis i =
     (title_id (fis ! i) = remembered_title_id e fis i \<or> open_ok e i (fis ! i))"

text \<open>
  Entry \<open>j\<close> has been processed: its container was ready and its font is loaded, or the
  slot was skipped because the container was not ready or the fetch failed, and is
  untouched in the first case. \<open>init_inv\<close> is what holds of the loop before iteration
  \<open>i\<close>.
\<close>

definition entry_done :: "env \<Rightarrow> bfttf_state \<Rightarrow> bfttf_state \<Rightarrow> nat \<Rightarrow> bool" where
  "entry_done e s0 s' j =
     ((slot_loaded e j (length (heap s0)) (heap s') (g_fontInfo s0 ! j) (g_fontInfo s' ! j) \<and>
       container_ready e (g_fontInfo s0) j) \<or>
      (slot_skipped (g_fontInfo s0 ! j) (g_fontInfo s' ! j) \<and>
       \<not> (container_ready e (g_fontInfo s0) j \<and> fetch_ok e j (g_fontInfo s0 ! j)) \<and>
       (container_ready e (g_fontInfo s0) j \<or> g_fontInfo s' ! j = g_fontInfo s0 ! j)))"

definition init_inv :: "env \<Rightarrow> bfttf_state \<Rightarrow> nat \<Rightarrow> init_locals \<Rightarrow> bool" where
  "init_inv e s0 i l =
     (length (g_fontInfo (st l)) = length (g_fontInfo s0) \<and>
      g_bfttfInterfaceInit (st l) = g_bfttfInterfaceInit s0 \<and>
      (\<exists>hx. heap (st l) = heap s0 @ hx) \<and>
      (\<forall>j. i \<le> j \<and> j < length (g_fontInfo s0) \<longrightarrow> g_fontInfo (st l) ! j = g_fontInfo s0 ! j) \<and>
      (\<forall>j<i. entry_done e s0 (st l) j) \<and>
      (0 < count l \<longleftrightarrow>
         (\<exists>j<i. slot_loaded e j (length (heap s0)) (heap (st l)) (g_fontInfo s0 ! j)
                   (g_fontInfo (st l) ! j))) \<and>
      (\<forall>b. length (heap s0) \<le> b \<and> block (heap (st l)) b \<noteq> None \<longrightarrow>
           (\<exists>j<i. data (g_fontInfo (st l) ! j) = Ptr b 0 \<and>
                  8 < size_info (g_fontInfo (st l) ! j))) \<and>
      prev_title_id l = remembered_title_id e (g_fontInfo s0) i)"

section \<open>Concrete inputs\<close>

text \<open>
  Font files of 12 and of 20 bytes, \<open>decoded20\<close> being the second after decoding; the
  table entry of the standard font once such a file is cached; environments in which only
  the first entry can be fetched (\<open>env_first\<close>), in which no title is found
  (\<open>env_fail\<close>), in which the title of the second and third entry is found only on
  the second attempt (\<open>env_retry\<close>), and in which every title is found and every file
  can be read but no NCA context can be set up (\<open>env_nca_fail\<close>); and the states and
  calls these lead to.
\<close>

definition bytes12 :: "u8 list" where
  "bytes12 = [0, 1, 2, 3, 4, 5, 6, 7, 8, 9, 10, 11]"

definition bytes20 :: "u8 list" where
  "bytes20 = [0, 1, 2, 3, 4, 5, 6, 7, 8, 9, 10, 11, 12, 13, 14, 15, 16, 17, 18, 19]"

definition decoded20 :: "u8 list" where
  "decoded20 = [0, 1, 2, 3, 4, 5, 6, 7, 65, 107, 18, 13, 12, 13, 14, 15, 16, 17, 18, 19]"

definition font12 :: BfttfFontInfo where
  "font12 = \<lparr>title_id = 0x0100000000000811, path = ''/nintendo_udsg-r_std_003.bfttf'',
              size_info = 12, data = Ptr 0 0\<rparr>"

definition font20 :: BfttfFontInfo where
  "font20 = \<lparr>title_id = 0x0100000000000811, path = ''/nintendo_udsg-r_std_003.bfttf'',
              size_info = 20, data = Ptr 0 0\<rparr>"

definition env_first :: "u8 list \<Rightarrow> env" where
  "env_first file =
     \<lparr>calloc_nca_ctx = True,
      titleGetInfoFromStorageByTitleId = (\<lambda>i tid. i = 0),
      ncaInitializeContext = (\<lambda>i tid. True),
      romfsInitializeContext = (\<lambda>i tid. True),
      romfsGetFileEntryByPath = (\<lambda>i p. if i = 0 then Some file else None),
      malloc_ok = (\<lambda>i. True),
      romfsReadFileEntryData = (\<lambda>i. True)\<rparr>"

definition env_fail :: env where
  "env_fail =
     \<lparr>calloc_nca_ctx = True,
      titleGetInfoFromStorageByTitleId = (\<lambda>i tid. False),
      ncaInitializeContext = (\<lambda>i tid. True),
      romfsInitializeContext = (\<lambda>i tid. True),
      romfsGetFileEntryByPath = (\<lambda>i p. None),
      malloc_ok = (\<lambda>i. True),
      romfsReadFileEntryData = (\<lambda>i. True)\<rparr>"

definition env_retry :: env where
  "env_retry =
     \<lparr>calloc_nca_ctx = True,
      titleGetInfoFromStorageByTitleId = (\<lambda>i tid. i = 2),
      ncaInitializeContext = (\<lambda>i tid. True),
      romfsInitializeContext = (\<lambda>i tid. True),
      romfsGetFileEntryByPath = (\<lambda>i p. if i = 2 then Some bytes20 else None),
      malloc_ok = (\<lambda>i. True),
      romfsReadFileEntryData = (\<lambda>i. True)\<rparr>"

definition env_nca_fail :: env where
  "env_nca_fail =
     \<lparr>calloc_nca_ctx = True,
      titleGetInfoFromStorageByTitleId = (\<lambda>i tid. True),
      ncaInitializeContext = (\<lambda>i tid. False),
      romfsInitializeContext = (\<lambda>i tid. True),
      romfsGetFileEntryByPath = (\<lambda>i p. Some bytes20),
      malloc_ok = (\<lambda>i. True),
      romfsReadFileEntryData = (\<lambda>i. True)\<rparr>"

definition state12 :: bfttf_state where
  "state12 = \<lparr>g_bfttfInterfaceInit = True, g_fontInfo = g_fontInfo_init[0 := font12],
               heap = [Some bytes12]\<rparr>"

definition state20 :: bfttf_state where
  "state20 = \<lparr>g_bfttfInterfaceInit = True, g_fontInfo = g_fontInfo_init[0 := font20],
               heap = [Some decoded20]\<rparr>"

definition exited20 :: bfttf_state where
  "exited20 = \<lparr>g_bfttfInterfaceInit = False,
                g_fontInfo = g_fontInfo_init[0 := font20\<lparr>size_info := 0\<rparr>],
                heap = [None]\<rparr>"

definition calls_first :: "event list" where
  "calls_first =
     [Call_titleGetInfoFromStorageByTitleId 0x0100000000000811,
      Call_ncaInitializeContext 0x0100000000000811,
      Call_romfsInitializeContext 0x0100000000000811,
      Call_romfsGetFileEntryByPath ''/nintendo_udsg-r_std_003.bfttf'',
      Call_romfsReadFileEntryData ''/nintendo_udsg-r_std_003.bfttf'',
      Call_titleGetInfoFromStorageByTitleId 0x0100000000000810,
      Call_titleGetInfoFromStorageByTitleId 0x0100000000000810,
      Call_titleGetInfoFromStorageByTitleId 0x0100000000000812,
      Call_titleGetInfoFromStorageByTitleId 0x0100000000000814,
      Call_titleGetInfoFromStorageByTitleId 0x0100000000000814,
      Call_titleGetInfoFromStorageByTitleId 0x0100000000000813]"

definition calls_fail :: "event list" where
  "calls_fail =
     [Call_titleGetInfoFromStorageByTitleId 0x0100000000000811,
      Call_titleGetInfoFromStorageByTitleId 0x0100000000000810,
      Call_titleGetInfoFromStorageByTitleId 0x0100000000000810,
      Call_titleGetInfoFromStorageByTitleId 0x0100000000000812,
      Call_titleGetInfoFromStorageByTitleId 0x0100000000000814,
      Call_titleGetInfoFromStorageByTitleId 0x0100000000000814,
      Call_titleGetInfoFromStorageByTitleId 0x0100000000000813]"

definition calls_nca_fail :: "event list" where
  "calls_nca_fail =
     [Call_titleGetInfoFromStorageByTitleId 0x0100000000000811,
      Call_ncaInitializeContext 0x0100000000000811,
      Call_titleGetInfoFromStorageByTitleId 0x0100000000000810,
      Call_ncaInitializeContext 0x0100000000000810,
      Call_titleGetInfoFromStorageByTitleId 0x0100000000000810,
      Call_ncaInitializeContext 0x0100000000000810,
      Call_titleGetInfoFromStorageByTitleId 0x0100000000000812,
      Call_ncaInitializeContext 0x0100000000000812,
      Call_titleGetInfoFromStorageByTitleId 0x0100000000000814,
      Call_ncaInitializeContext 0x0100000000000814,
      Call_titleGetInfoFromStorageByTitleId 0x0100000000000814,
      Call_ncaInitializeContext 0x0100000000000814,
      Call_titleGetInfoFromStorageByTitleId 0x0100000000000813,
      Call_ncaInitializeContext 0x0100000000000813]"

definition state_retry :: bfttf_state where
  "state_retry =
     \<lparr>g_bfttfInterfaceInit = True,
      g_fontInfo = g_fontInfo_init[2 := (g_fontInfo_init ! 2)\<lparr>size_info := 20, data := Ptr 0 0\<rparr>],
      heap = [Some decoded20]\<rparr>"

definition calls_retry :: "event list" where
  "calls_retry =
     [Call_titleGetInfoFromStorageByTitleId 0x0100000000000811,
      Call_titleGetInfoFromStorageByTitleId 0x0100000000000810,
      Call_titleGetInfoFromStorageByTitleId 0x0100000000000810,
      Call_ncaInitializeContext 0x0100000000000810,
      Call_romfsInitializeContext 0x0100000000000810,
      Call_romfsGetFileEntryByPath ''/nintendo_ext2_003.bfttf'',
      Call_romfsReadFileEntryData ''/nintendo_ext2_003.bfttf'',
      Call_titleGetInfoFromStorageByTitleId 0x0100000000000812,
      Call_titleGetInfoFromStorageByTitleId 0x0100000000000814,
      Call_titleGetInfoFromStorageByTitleId 0x0100000000000814,
      Call_titleGetInfoFromStorageByTitleId 0x0100000000000813]"

text \<open>
  The local variables of \<open>bfttfInitialize\<close> in the environment \<open>env_retry\<close> after the
  first, the second and the third iteration.
\<close>

definition locals_retry1 :: init_locals where
  "locals_retry1 =
     \<lparr>count = 0, prev_title_id = 0, st = initial_state,
      calls = [Call_titleGetInfoFromStorageByTitleId 0x0100000000000811]\<rparr>"

definition locals_retry2 :: init_locals where
  "locals_retry2 =
     \<lparr>count = 0, prev_title_id = 0, st = initial_state,
      calls = [Call_titleGetInfoFromStorageByTitleId 0x0100000000000811,
               Call_titleGetInfoFromStorageByTitleId 0x0100000000000810]\<rparr>"

definition locals_retry3 :: init_locals where
  "locals_retry3 =
     \<lparr>count = 1, prev_title_id = 0x0100000000000810,
      st = state_retry\<lparr>g_bfttfInterfaceInit := False\<rparr>,
      calls = [Call_titleGetInfoFromStorageByTitleId 0x0100000000000811,
               Call_titleGetInfoFromStorageByTitleId 0x0100000000000810,
               Call_titleGetInfoFromStorageByTitleId 0x0100000000000810,
               Call_ncaInitializeContext 0x0100000000000810,
               Call_romfsInitializeContext 0x0100000000000810,
               Call_romfsGetFileEntryByPath ''/nintendo_ext2_003.bfttf'',
               Call_romfsReadFileEntryData ''/nintendo_ext2_003.bfttf'']\<rparr>"

definition fd0 :: BfttfFontData where
  "fd0 = \<lparr>type_data = 0xFF, size_data = 0, ptr = NULL\<rparr>"

section \<open>Words and bytes\<close>

lemma and3: "(x::u32) AND 3 = take_bit 2 x"
proof -
  have "(3::u32) = mask 2" by (simp add: mask_eq_exp_minus_1)
  then show ?thesis by (simp add: take_bit_eq_mask)
qed

lemma IS_ALIGNED_4: "IS_ALIGNED x 4 \<longleftrightarrow> 4 dvd unat x"
proof -
  have "x AND 3 = 0 \<longleftrightarrow> unat (take_bit 2 x) = 0"
    by (simp add: and3 unsigned_eq_0_iff)
  also have "\<dots> \<longleftrightarrow> unat x mod 4 = 0"
    by (simp only: unsigned_take_bit_eq) (simp add: take_bit_eq_mod)
  finally show ?thesis by (simp add: IS_ALIGNED_def dvd_eq_mod_eq_0)
qed

lemma unat_sub8: "8 < (x::u32) \<Longrightarrow> unat (x - 8) = unat x - 8"
  by (simp add: unat_sub word_less_nat_alt word_le_nat_alt)

lemma u32_gt8: "8 < (x::u32) \<longleftrightarrow> 8 < unat x"
  by (simp add: word_less_nat_alt)

lemma u32_le8: "(x::u32) \<le> 8 \<longleftrightarrow> unat x \<le> 8"
  by (simp add: word_le_nat_alt)

lemma length_xor_bytes [simp]: "length (xor_bytes buf lo hi) = length buf"
  by (simp add: xor_bytes_def)

lemma nth_xor_bytes:
  "p < length buf \<Longrightarrow> xor_bytes buf lo hi ! p =
     (if lo \<le> p \<and> p < hi then buf ! p XOR key_byte ((p - lo) mod 4) else buf ! p)"
  by (simp add: xor_bytes_def)

lemma byte0: "ucast ((ucast (a::u8) OR push_bit 8 (ucast (b::u8)) OR push_bit 16 (ucast (c::u8)) OR push_bit 24 (ucast (d::u8)) :: u32) XOR k) = a XOR (ucast k :: u8)"
  by (rule bit_word_eqI) (auto simp add: bit_simps dest: bit_imp_le_length)

lemma byte1: "ucast (drop_bit 8 ((ucast (a::u8) OR push_bit 8 (ucast (b::u8)) OR push_bit 16 (ucast (c::u8)) OR push_bit 24 (ucast (d::u8)) :: u32) XOR k)) = b XOR (ucast (drop_bit 8 k) :: u8)"
  by (rule bit_word_eqI) (auto simp add: bit_simps dest: bit_imp_le_length)

lemma byte2: "ucast (drop_bit 16 ((ucast (a::u8) OR push_bit 8 (ucast (b::u8)) OR push_bit 16 (ucast (c::u8)) OR push_bit 24 (ucast (d::u8)) :: u32) XOR k)) = c XOR (ucast (drop_bit 16 k) :: u8)"
  by (rule bit_word_eqI) (auto simp add: bit_simps dest: bit_imp_le_length)

lemma byte3: "ucast (drop_bit 24 ((ucast (a::u8) OR push_bit 8 (ucast (b::u8)) OR push_bit 16 (ucast (c::u8)) OR push_bit 24 (ucast (d::u8)) :: u32) XOR k)) = d XOR (ucast (drop_bit 24 k) :: u8)"
  by (rule bit_word_eqI) (auto simp add: bit_simps dest: bit_imp_le_length)

lemma xor_u32_at_update:
  assumes "p + 4 \<le> length buf"
  shows "xor_u32_at buf p =
     Some (buf[p := buf ! p XOR ucast g_bfttfKey,
               p + 1 := buf ! (p + 1) XOR ucast (drop_bit 8 g_bfttfKey),
               p + 2 := buf ! (p + 2) XOR ucast (drop_bit 16 g_bfttfKey),
               p + 3 := buf ! (p + 3) XOR ucast (drop_bit 24 g_bfttfKey)])"
  unfolding xor_u32_at_def load_u32_def store_u32_def
  using assms by (simp only: if_True option.case byte0 byte1 byte2 byte3)

lemma xor_u32_at_bytes:
  assumes "p + 4 \<le> length buf"
  shows "xor_u32_at buf p = Some (xor_bytes buf p (p + 4))"
proof -
  let ?u = "buf[p := buf ! p XOR ucast g_bfttfKey,
               p + 1 := buf ! (p + 1) XOR ucast (drop_bit 8 g_bfttfKey),
               p + 2 := buf ! (p + 2) XOR ucast (drop_bit 16 g_bfttfKey),
               p + 3 := buf ! (p + 3) XOR ucast (drop_bit 24 g_bfttfKey)]"
  have "?u = xor_bytes buf p (p + 4)"
  proof (rule nth_equalityI)
    show "length ?u = length (xor_bytes buf p (p + 4))" by simp
  next
    fix q assume "q < length ?u"
    then have q: "q < length buf" by simp
    consider "q < p" | "q = p" | "q = p + 1" | "q = p + 2" | "q = p + 3" | "q \<ge> p + 4" by linarith
    then show "?u ! q = xor_bytes buf p (p + 4) ! q"
      using q assms by cases (simp_all add: nth_xor_bytes nth_list_update key_byte_def)
  qed
  then show ?thesis using xor_u32_at_update [OF assms] by simp
qed

lemma xor_bytes_compose:
  assumes "lo \<le> mid" "4 dvd (mid - lo)"
  shows "xor_bytes (xor_bytes buf lo mid) mid hi = xor_bytes buf lo (max mid hi)"
proof (rule nth_equalityI)
  show "length (xor_bytes (xor_bytes buf lo mid) mid hi) = length (xor_bytes buf lo (max mid hi))" by simp
next
  fix q assume "q < length (xor_bytes (xor_bytes buf lo mid) mid hi)"
  then have q: "q < length buf" by simp
  have ph: "mid \<le> q \<Longrightarrow> (q - mid) mod 4 = (q - lo) mod 4"
  proof -
    assume m: "mid \<le> q"
    from assms obtain k where k: "mid - lo = 4 * k" by (auto simp: dvd_def)
    have "q - lo = (q - mid) + 4 * k" using assms m k by linarith
    then show ?thesis by simp
  qed
  show "xor_bytes (xor_bytes buf lo mid) mid hi ! q = xor_bytes buf lo (max mid hi) ! q"
    using q assms ph by (auto simp add: nth_xor_bytes)
qed

lemma xor_xor_byte: "((b::u8) XOR k) XOR k = b"
  by (simp add: xor.assoc)

lemma xor_bytes_involution: "xor_bytes (xor_bytes buf lo hi) lo hi = buf"
  by (rule nth_equalityI) (auto simp add: nth_xor_bytes xor_xor_byte)

lemma xor_bytes_empty: "hi \<le> lo \<Longrightarrow> xor_bytes buf lo hi = buf"
  by (rule nth_equalityI) (auto simp add: nth_xor_bytes)

lemma decode_loop_bytes:
  assumes "4 dvd unat i" "4 dvd unat bound" "off + unat bound \<le> length buf"
  shows "decode_loop i bound off buf = Some (xor_bytes buf (off + unat i) (off + unat bound))"
  using assms
proof (induction "unat bound - unat i" arbitrary: i buf rule: less_induct)
  case less
  show ?case
  proof (cases "i < bound")
    case False
    then have "unat bound \<le> unat i" by (simp add: word_less_nat_alt)
    then show ?thesis using False
      by (subst decode_loop.simps) (simp add: xor_bytes_empty)
  next
    case True
    then have lt: "unat i < unat bound" by (simp add: word_less_nat_alt)
    with less.prems have le: "unat i + 4 \<le> unat bound" by presburger
    have "unat bound < 2 ^ 32" using unsigned_less [of bound] by simp
    with le have u: "unat (i + 4) = unat i + 4"
      by (simp add: unat_word_ariths)
    have in_b: "off + unat i + 4 \<le> length buf" using le less.prems by linarith
    have step: "xor_u32_at buf (off + unat i) = Some (xor_bytes buf (off + unat i) (off + unat i + 4))"
      using in_b by (rule xor_u32_at_bytes)
    have "decode_loop (i + 4) bound off (xor_bytes buf (off + unat i) (off + unat i + 4)) =
        Some (xor_bytes (xor_bytes buf (off + unat i) (off + unat i + 4)) (off + unat (i + 4)) (off + unat bound))"
      using less.prems lt u by (intro less.hyps) simp_all
    also have "xor_bytes (xor_bytes buf (off + unat i) (off + unat i + 4)) (off + unat (i + 4)) (off + unat bound)
        = xor_bytes buf (off + unat i) (off + unat bound)"
      using le u xor_bytes_compose [of "off + unat i" "off + unat i + 4" buf "off + unat bound"]
      by (simp add: ac_simps max_def)
    finally show ?thesis using True step
      by (subst decode_loop.simps) simp
  qed
qed

section \<open>Properties of bfttfDecodeFont\<close>

lemma bfttfDecodeFont_valid:
  assumes "8 < size_info fi" "4 dvd unat (size_info fi)" "data fi = Ptr b off"
    "block h b = Some buf" "off + unat (size_info fi) \<le> length buf"
  shows "bfttfDecodeFont h (Some fi) =
     Some (True, h[b := Some (xor_bytes buf (off + 8) (off + (unat (size_info fi) - 8)))])"
proof -
  have a: "IS_ALIGNED (size_info fi) 4" using assms(2) by (simp add: IS_ALIGNED_4)
  have u: "unat (size_info fi - 8) = unat (size_info fi) - 8" using assms(1) by (rule unat_sub8)
  have g: "8 < unat (size_info fi)" using assms(1) by (simp add: u32_gt8)
  have d: "4 dvd unat (size_info fi - 8)" using assms(2) g u by presburger
  have "decode_loop 8 (size_info fi - 8) off buf =
      Some (xor_bytes buf (off + unat (8::u32)) (off + unat (size_info fi - 8)))"
    using d assms(5) u by (intro decode_loop_bytes) simp_all
  then show ?thesis using assms a u
    by (simp add: bfttfDecodeFont_def not_le [symmetric] del: not_le)
qed

text \<open>
  C2. For every buffer that meets the precondition of the transform (size above 8 and a
  multiple of 4, a buffer that is not null and holds that many bytes), decoding twice
  with the fixed key gives back the original heap, byte for byte.
\<close>

theorem bfttfDecodeFont_involution:
  assumes "8 < size_info fi" "4 dvd unat (size_info fi)" "data fi = Ptr b off"
    "block h b = Some buf" "off + unat (size_info fi) \<le> length buf"
  shows "\<exists>h'. bfttfDecodeFont h (Some fi) = Some (True, h') \<and>
              bfttfDecodeFont h' (Some fi) = Some (True, h)"
proof -
  let ?buf' = "xor_bytes buf (off + 8) (off + (unat (size_info fi) - 8))"
  let ?h' = "h[b := Some ?buf']"
  have bl: "b < length h" and hb: "h ! b = Some buf"
    using assms(4) by (auto simp: block_def split: if_splits)
  have 1: "bfttfDecodeFont h (Some fi) = Some (True, ?h')"
    using assms by (rule bfttfDecodeFont_valid)
  have b': "block ?h' b = Some ?buf'" using bl by (simp add: block_def)
  have "bfttfDecodeFont ?h' (Some fi) =
      Some (True, ?h'[b := Some (xor_bytes ?buf' (off + 8) (off + (unat (size_info fi) - 8)))])"
    using assms(1,2,3) b' by (rule bfttfDecodeFont_valid) (simp add: assms(5))
  also have "?h'[b := Some (xor_bytes ?buf' (off + 8) (off + (unat (size_info fi) - 8)))] = h"
    using hb by (simp add: xor_bytes_involution list_update_same_conv bl)
  finally show ?thesis using 1 by blast
qed

lemma dec20: "bfttfDecodeFont [Some bytes20] (Some font20) = Some (True, [Some [0, 1, 2, 3, 4, 5, 6, 7, 65, 107, 18, 13, 12, 13, 14, 15, 16, 17, 18, 19]])"
  by code_simp

theorem bfttfDecodeFont_involution_witness:
  "bfttfDecodeFont [Some bytes20] (Some font20) =
      Some (True, [Some [0, 1, 2, 3, 4, 5, 6, 7, 65, 107, 18, 13, 12, 13, 14, 15, 16, 17, 18, 19]]) \<and>
   bfttfDecodeFont [Some [0, 1, 2, 3, 4, 5, 6, 7, 65, 107, 18, 13, 12, 13, 14, 15, 16, 17, 18, 19]] (Some font20) =
      Some (True, [Some bytes20])"
proof -
  have 1: "8 < size_info font20" by (simp add: font20_def)
  have 2: "4 dvd unat (size_info font20)" by (simp add: font20_def)
  have 3: "data font20 = Ptr 0 0" by (simp add: font20_def)
  have 4: "block [Some bytes20] 0 = Some bytes20" by (simp add: block_def)
  have 5: "0 + unat (size_info font20) \<le> length bytes20" by (simp add: font20_def bytes20_def)
  from bfttfDecodeFont_involution [OF 1 2 3 4 5] show ?thesis
    by (auto simp: dec20)
qed

text \<open>
  C8. When the size is at most 8, or not a multiple of 4, or the buffer is null (or the
  entry pointer itself is null), the transform reports failure and the heap is unchanged.
\<close>

theorem bfttfDecodeFont_invalid:
  assumes "size_info fi \<le> 8 \<or> \<not> 4 dvd unat (size_info fi) \<or> data fi = NULL"
  shows "bfttfDecodeFont h (Some fi) = Some (False, h) \<and> bfttfDecodeFont h None = Some (False, h)"
  using assms by (auto simp: bfttfDecodeFont_def IS_ALIGNED_4)

theorem bfttfDecodeFont_invalid_witness:
  "bfttfDecodeFont [Some bytes12] (Some (font12\<lparr>size_info := 8\<rparr>)) = Some (False, [Some bytes12]) \<and>
   bfttfDecodeFont [Some bytes12] (Some (font12\<lparr>size_info := 10\<rparr>)) = Some (False, [Some bytes12]) \<and>
   bfttfDecodeFont [Some bytes12] (Some (font12\<lparr>data := NULL\<rparr>)) = Some (False, [Some bytes12])"
proof -
  have 1: "size_info (font12\<lparr>size_info := 8\<rparr>) \<le> 8 \<or> \<not> 4 dvd unat (size_info (font12\<lparr>size_info := 8\<rparr>)) \<or> data (font12\<lparr>size_info := 8\<rparr>) = NULL"
    by simp
  have 2: "size_info (font12\<lparr>size_info := 10\<rparr>) \<le> 8 \<or> \<not> 4 dvd unat (size_info (font12\<lparr>size_info := 10\<rparr>)) \<or> data (font12\<lparr>size_info := 10\<rparr>) = NULL"
    by simp
  have 3: "size_info (font12\<lparr>data := NULL\<rparr>) \<le> 8 \<or> \<not> 4 dvd unat (size_info (font12\<lparr>data := NULL\<rparr>)) \<or> data (font12\<lparr>data := NULL\<rparr>) = NULL"
    by simp
  show ?thesis
    using bfttfDecodeFont_invalid [OF 1, of "[Some bytes12]"] bfttfDecodeFont_invalid [OF 2, of "[Some bytes12]"]
      bfttfDecodeFont_invalid [OF 3, of "[Some bytes12]"] by simp
qed

text \<open>
  In a font that is decoded, the last 8 bytes of the buffer are what they were.
\<close>

lemma bfttfDecodeFont_tail:
  assumes "8 < size_info fi" "4 dvd unat (size_info fi)" "data fi = Ptr b off"
    "block h b = Some buf" "off + unat (size_info fi) \<le> length buf"
    "off + unat (size_info fi) - 8 \<le> p" "p < length buf"
  shows "\<exists>h' buf'. bfttfDecodeFont h (Some fi) = Some (True, h') \<and> block h' b = Some buf' \<and>
           buf' ! p = buf ! p"
proof -
  let ?buf' = "xor_bytes buf (off + 8) (off + (unat (size_info fi) - 8))"
  have bl: "b < length h" using assms(4) by (auto simp: block_def split: if_splits)
  have 1: "bfttfDecodeFont h (Some fi) = Some (True, h[b := Some ?buf'])"
    using assms(1-5) by (rule bfttfDecodeFont_valid)
  have 2: "block (h[b := Some ?buf']) b = Some ?buf'" using bl by (simp add: block_def)
  have "\<not> p < off + (unat (size_info fi) - 8)" using assms(1,6) by (simp add: u32_gt8)
  then have 3: "?buf' ! p = buf ! p" using assms(7) by (simp add: nth_xor_bytes)
  show ?thesis using 1 2 3 by blast
qed

text \<open>
  C1. The scenario of a 12-byte font (8 bytes of header and one payload word), evaluated:
  the loop bound \<open>size - 8\<close> is 4, below the start 8, so no word is combined with the key.
  The decode succeeds with the block unchanged, and the view that the lookup returns holds
  the original payload bytes 8, 9, 10, 11, not these bytes combined with the key bytes
  0x49, 0x62, 0x18, 0x06.
\<close>

theorem bfttfDecodeFont_12_bytes_unchanged:
  "bfttfDecodeFont [Some bytes12] (Some font12) = Some (True, [Some bytes12]) \<and>
   bfttfInitialize (env_first bytes12) initial_state = Some (True, state12, calls_first) \<and>
   bfttfGetFontByType 7 state12 (Some fd0) 0 =
     Some (True, Some \<lparr>type_data = 0, size_data = 4, ptr = Ptr 0 8\<rparr>, state12) \<and>
   read_bytes (heap state12) (Ptr 0 8) 4 = Some [8, 9, 10, 11] \<and>
   map key_byte [0, 1, 2, 3] = [0x49, 0x62, 0x18, 0x06] \<and>
   xor_bytes bytes12 8 12 = [0, 1, 2, 3, 4, 5, 6, 7, 65, 107, 18, 13]"
  by code_simp

theorem bfttfDecodeFont_12_bytes_unchanged_witness:
  "read_bytes (heap state12) (Ptr 0 8) 4 = Some [8, 9, 10, 11] \<and>
   read_bytes (heap state12) (Ptr 0 8) 4 \<noteq> Some (drop 8 (xor_bytes bytes12 8 12))"
  using bfttfDecodeFont_12_bytes_unchanged by simp

section \<open>Properties of bfttfGetFontByType\<close>

text \<open>
  C4. With \<open>BfttfFontType_Total\<close> within the table: for a type in range whose slot has
  size \<open>S\<close> above 8 and a buffer of \<open>S\<close> bytes, the lookup succeeds with size \<open>S - 8\<close>
  and the pointer 8 bytes into the buffer, so the view is the buffer without its first 8
  bytes and its first byte is byte 8 of the buffer. The lookup fails when the type is out
  of range, the size is at most 8, or the buffer pointer is null.
\<close>

theorem bfttfGetFontByType_view:
  assumes "ftotal \<le> g_fontInfoCount s"
  shows "(unat font_type < ftotal \<and> size_info (g_fontInfo s ! unat font_type) = S \<and> 8 < S \<and>
          data (g_fontInfo s ! unat font_type) = Ptr b off \<and>
          block (heap s) b = Some buf \<and> off + unat S \<le> length buf \<longrightarrow>
            bfttfGetFontByType ftotal s (Some fd) font_type =
              Some (True, Some (fd\<lparr>type_data := font_type, size_data := S - 8, ptr := Ptr b (off + 8)\<rparr>), s) \<and>
            unat (S - 8) = unat S - 8 \<and>
            read_bytes (heap s) (Ptr b (off + 8)) (unat (S - 8)) = Some (take (unat S - 8) (drop (off + 8) buf)) \<and>
            read_bytes (heap s) (Ptr b (off + 8)) 1 = Some [buf ! (off + 8)]) \<and>
         (ftotal \<le> unat font_type \<or>
          (unat font_type < ftotal \<and>
           (size_info (g_fontInfo s ! unat font_type) \<le> 8 \<or> data (g_fontInfo s ! unat font_type) = NULL)) \<longrightarrow>
            bfttfGetFontByType ftotal s (Some fd) font_type = Some (False, Some fd, s))"
proof (intro conjI impI)
  assume a: "unat font_type < ftotal \<and> size_info (g_fontInfo s ! unat font_type) = S \<and> 8 < S \<and>
          data (g_fontInfo s ! unat font_type) = Ptr b off \<and>
          block (heap s) b = Some buf \<and> off + unat S \<le> length buf"
  then have g: "8 < unat S" by (simp add: u32_gt8)
  show "bfttfGetFontByType ftotal s (Some fd) font_type =
      Some (True, Some (fd\<lparr>type_data := font_type, size_data := S - 8, ptr := Ptr b (off + 8)\<rparr>), s)"
    using a assms by (auto simp: bfttfGetFontByType_def Let_def)
  show u: "unat (S - 8) = unat S - 8" using a by (simp add: unat_sub8)
  show "read_bytes (heap s) (Ptr b (off + 8)) (unat (S - 8)) = Some (take (unat S - 8) (drop (off + 8) buf))"
    using a u g by simp
  have "take 1 (drop (off + 8) buf) = [buf ! (off + 8)]"
    using a g by (simp add: take_Suc_conv_app_nth)
  then show "read_bytes (heap s) (Ptr b (off + 8)) 1 = Some [buf ! (off + 8)]"
    using a g by simp
next
  assume "ftotal \<le> unat font_type \<or>
          (unat font_type < ftotal \<and>
           (size_info (g_fontInfo s ! unat font_type) \<le> 8 \<or> data (g_fontInfo s ! unat font_type) = NULL))"
  then show "bfttfGetFontByType ftotal s (Some fd) font_type = Some (False, Some fd, s)"
    using assms by (auto simp: bfttfGetFontByType_def Let_def)
qed

theorem bfttfGetFontByType_view_witness:
  "bfttfGetFontByType 7 state20 (Some fd0) 0 =
     Some (True, Some \<lparr>type_data = 0, size_data = 12, ptr = Ptr 0 8\<rparr>, state20) \<and>
   read_bytes (heap state20) (Ptr 0 8) 12 = Some [65, 107, 18, 13, 12, 13, 14, 15, 16, 17, 18, 19] \<and>
   read_bytes (heap state20) (Ptr 0 8) 1 = Some [65] \<and>
   bfttfGetFontByType 7 state20 (Some fd0) 1 = Some (False, Some fd0, state20) \<and>
   bfttfGetFontByType 7 state20 (Some fd0) 7 = Some (False, Some fd0, state20)"
proof -
  have c: "7 \<le> g_fontInfoCount state20" by code_simp
  have p0: "unat (0::u8) < 7 \<and> size_info (g_fontInfo state20 ! unat (0::u8)) = 20 \<and> 8 < (20::u32) \<and>
      data (g_fontInfo state20 ! unat (0::u8)) = Ptr 0 0 \<and>
      block (heap state20) 0 = Some decoded20 \<and> 0 + unat (20::u32) \<le> length decoded20"
    by code_simp
  have p1: "7 \<le> unat (1::u8) \<or> (unat (1::u8) < 7 \<and>
      (size_info (g_fontInfo state20 ! unat (1::u8)) \<le> 8 \<or> data (g_fontInfo state20 ! unat (1::u8)) = NULL))"
    by code_simp
  have p7: "7 \<le> unat (7::u8) \<or> (unat (7::u8) < 7 \<and>
      (size_info (g_fontInfo state20 ! unat (7::u8)) \<le> 8 \<or> data (g_fontInfo state20 ! unat (7::u8)) = NULL))"
    by simp
  have d: "take (unat (20::u32) - 8) (drop (0 + 8) decoded20) = [65, 107, 18, 13, 12, 13, 14, 15, 16, 17, 18, 19]"
    "decoded20 ! (0 + 8) = 65"
    by (simp_all add: decoded20_def)
  note r0 = mp [OF conjunct1 [OF bfttfGetFontByType_view [OF c, where font_type = 0 and S = 20
        and b = 0 and off = 0 and buf = decoded20 and fd = fd0]] p0]
  note r1 = mp [OF conjunct2 [OF bfttfGetFontByType_view [OF c, where font_type = 1 and fd = fd0]] p1]
  note r7 = mp [OF conjunct2 [OF bfttfGetFontByType_view [OF c, where font_type = 7 and fd = fd0]] p7]
  have u: "unat ((20::u32) - 8) = 12" by simp
  show ?thesis
    using r0 r1 r7 by (simp only: u d) (simp add: fd0_def)
qed

text \<open>
  C10. The lookup returns whenever \<open>BfttfFontType_Total\<close> is within the table, and it
  never changes the globals or the heap. When it fails, the caller's structure is what it
  was; the structure is written only when the call succeeds, which takes a non-null
  argument, a type in range and a slot with size above 8 and a buffer.
\<close>

theorem bfttfGetFontByType_frame:
  "(ftotal \<le> g_fontInfoCount s \<longrightarrow> bfttfGetFontByType ftotal s font_data font_type \<noteq> None) \<and>
   (bfttfGetFontByType ftotal s font_data font_type = Some (r, fd', s') \<longrightarrow>
      s' = s \<and> (\<not> r \<longrightarrow> fd' = font_data) \<and>
      (r \<longrightarrow> font_data \<noteq> None \<and> unat font_type < ftotal \<and> unat font_type < g_fontInfoCount s \<and>
             8 < size_info (g_fontInfo s ! unat font_type) \<and>
             data (g_fontInfo s ! unat font_type) \<noteq> NULL))"
  by (auto simp: bfttfGetFontByType_def Let_def split: option.splits if_splits)

theorem bfttfGetFontByType_frame_witness:
  "7 \<le> g_fontInfoCount state20 \<and>
   bfttfGetFontByType 7 state20 (Some fd0) 1 = Some (False, Some fd0, state20) \<and>
   bfttfGetFontByType 7 state20 None 0 = Some (False, None, state20) \<and>
   bfttfGetFontByType 7 state20 (Some fd0) 0 =
     Some (True, Some \<lparr>type_data = 0, size_data = 12, ptr = Ptr 0 8\<rparr>, state20) \<and>
   bfttfGetFontByType 7 state20 (Some fd0) 200 \<noteq> None \<and>
   8 < size_info (g_fontInfo state20 ! unat (0::u8)) \<and>
   data (g_fontInfo state20 ! unat (0::u8)) \<noteq> NULL"
proof -
  have c: "7 \<le> g_fontInfoCount state20" by code_simp
  have 1: "bfttfGetFontByType 7 state20 (Some fd0) 1 = Some (False, Some fd0, state20)"
    by code_simp
  have 2: "bfttfGetFontByType 7 state20 None 0 = Some (False, None, state20)"
    by code_simp
  have 3: "bfttfGetFontByType 7 state20 (Some fd0) 0 =
     Some (True, Some \<lparr>type_data = 0, size_data = 12, ptr = Ptr 0 8\<rparr>, state20)"
    by code_simp
  note t = mp [OF conjunct1 [OF bfttfGetFontByType_frame [of 7 state20 "Some fd0" 200]] c]
  note f3 = mp [OF conjunct2 [OF bfttfGetFontByType_frame] 3]
  show ?thesis
    using c 1 2 3 t f3 by simp
qed

section \<open>Properties of bfttfExit\<close>

lemma exit_loop_result:
  "exit_loop i n s = Some s' \<Longrightarrow> n = length (g_fontInfo s) \<Longrightarrow>
     length (g_fontInfo s') = length (g_fontInfo s) \<and>
     (\<forall>j. i \<le> j \<and> j < n \<longrightarrow> size_info (g_fontInfo s' ! j) = 0) \<and>
     (\<forall>j. i \<le> j \<and> j < n \<longrightarrow> data (g_fontInfo s' ! j) = data (g_fontInfo s ! j)) \<and>
     (\<forall>j < i. g_fontInfo s' ! j = g_fontInfo s ! j) \<and>
     g_bfttfInterfaceInit s' = g_bfttfInterfaceInit s"
proof (induction i n s rule: exit_loop.induct)
  case (1 i n s)
  show ?case
  proof (cases "i < n")
    case False
    with "1.prems" show ?thesis by auto
  next
    case True
    let ?fi = "(g_fontInfo s ! i)\<lparr>size_info := 0\<rparr>"
    let ?s1 = "s\<lparr>g_fontInfo := (g_fontInfo s)[i := ?fi]\<rparr>"
    show ?thesis
    proof (cases "data ?fi \<noteq> NULL")
      case nn: True
      then obtain h where h: "free (heap ?s1) (data ?fi) = Some h"
        and r: "exit_loop (Suc i) n (?s1\<lparr>heap := h\<rparr>) = Some s'"
        using "1.prems"(1) True by (auto simp: Let_def split: option.splits)
      have ih: "length (g_fontInfo s') = length (g_fontInfo (?s1\<lparr>heap := h\<rparr>)) \<and>
         (\<forall>j. Suc i \<le> j \<and> j < n \<longrightarrow> size_info (g_fontInfo s' ! j) = 0) \<and>
         (\<forall>j. Suc i \<le> j \<and> j < n \<longrightarrow> data (g_fontInfo s' ! j) = data (g_fontInfo (?s1\<lparr>heap := h\<rparr>) ! j)) \<and>
         (\<forall>j < Suc i. g_fontInfo s' ! j = g_fontInfo (?s1\<lparr>heap := h\<rparr>) ! j) \<and>
         g_bfttfInterfaceInit s' = g_bfttfInterfaceInit (?s1\<lparr>heap := h\<rparr>)"
        using "1.IH"(1) [OF True refl refl nn h r] "1.prems"(2) by simp
      show ?thesis
      proof (intro conjI allI impI)
        show "length (g_fontInfo s') = length (g_fontInfo s)" using ih by simp
        show "g_bfttfInterfaceInit s' = g_bfttfInterfaceInit s" using ih by simp
      next
        fix j assume j: "i \<le> j \<and> j < n"
        show "size_info (g_fontInfo s' ! j) = 0"
        proof (cases "j = i")
          case True
          then have "g_fontInfo s' ! j = ?fi" using ih j "1.prems"(2) by simp
          then show ?thesis by simp
        next
          case False
          then show ?thesis using ih j by simp
        qed
        show "data (g_fontInfo s' ! j) = data (g_fontInfo s ! j)"
        proof (cases "j = i")
          case True
          then have "g_fontInfo s' ! j = ?fi" using ih j "1.prems"(2) by simp
          then show ?thesis using True by simp
        next
          case False
          then show ?thesis using ih j by simp
        qed
      next
        fix j assume "j < i"
        then show "g_fontInfo s' ! j = g_fontInfo s ! j" using ih by simp
      qed
    next
      case nu: False
      then have r: "exit_loop (Suc i) n ?s1 = Some s'"
        using "1.prems"(1) True by (auto simp: Let_def)
      have ih: "length (g_fontInfo s') = length (g_fontInfo ?s1) \<and>
         (\<forall>j. Suc i \<le> j \<and> j < n \<longrightarrow> size_info (g_fontInfo s' ! j) = 0) \<and>
         (\<forall>j. Suc i \<le> j \<and> j < n \<longrightarrow> data (g_fontInfo s' ! j) = data (g_fontInfo ?s1 ! j)) \<and>
         (\<forall>j < Suc i. g_fontInfo s' ! j = g_fontInfo ?s1 ! j) \<and>
         g_bfttfInterfaceInit s' = g_bfttfInterfaceInit ?s1"
        using "1.IH"(2) [OF True refl refl nu r] "1.prems"(2) by simp
      show ?thesis
      proof (intro conjI allI impI)
        show "length (g_fontInfo s') = length (g_fontInfo s)" using ih by simp
        show "g_bfttfInterfaceInit s' = g_bfttfInterfaceInit s" using ih by simp
      next
        fix j assume j: "i \<le> j \<and> j < n"
        show "size_info (g_fontInfo s' ! j) = 0"
        proof (cases "j = i")
          case True
          then have "g_fontInfo s' ! j = ?fi" using ih j "1.prems"(2) by simp
          then show ?thesis by simp
        next
          case False
          then show ?thesis using ih j by simp
        qed
        show "data (g_fontInfo s' ! j) = data (g_fontInfo s ! j)"
        proof (cases "j = i")
          case True
          then have "g_fontInfo s' ! j = ?fi" using ih j "1.prems"(2) by simp
          then show ?thesis using True by simp
        next
          case False
          then show ?thesis using ih j by simp
        qed
      next
        fix j assume "j < i"
        then show "g_fontInfo s' ! j = g_fontInfo s ! j" using ih by simp
      qed
    qed
  qed
qed


lemma live_free_other:
  assumes "live h p" "live h q" "p \<noteq> q" "free h p = Some h'"
  shows "live h' q"
proof -
  from assms(1) obtain b where p: "p = Ptr b 0" and b: "block h b \<noteq> None"
    by (auto simp: live_def split: pointer.splits)
  from assms(2) obtain c where q: "q = Ptr c 0" and c: "block h c \<noteq> None"
    by (auto simp: live_def split: pointer.splits)
  from assms(3) p q have "b \<noteq> c" by simp
  moreover from assms(4) p b have "h' = h[b := None]" by simp
  ultimately show ?thesis using q c by (auto simp: live_def block_def split: if_splits)
qed

lemma slots_valid_Cons_free:
  assumes "slots_valid h (fi # fis)" "data fi \<noteq> NULL"
  shows "\<exists>h'. free h (data fi) = Some h' \<and> slots_valid h' fis"
proof -
  from assms have lv: "live h (data fi)" by (simp add: slots_valid_def)
  then obtain b where p: "data fi = Ptr b 0" and b: "block h b \<noteq> None"
    by (auto simp: live_def split: pointer.splits)
  then have f: "free h (data fi) = Some (h[b := None])" by simp
  have d: "distinct (filter (\<lambda>p. p \<noteq> NULL) (map data fis))"
    and ni: "data fi \<notin> set (map data fis)"
    and la: "list_all (\<lambda>fi. data fi = NULL \<or> live h (data fi)) fis"
    using assms by (auto simp: slots_valid_def)
  have "list_all (\<lambda>fj. data fj = NULL \<or> live (h[b := None]) (data fj)) fis"
    unfolding list_all_iff
  proof
    fix fj assume m: "fj \<in> set fis"
    then have "data fj = NULL \<or> live h (data fj)" using la by (simp add: list_all_iff)
    moreover have "data fj \<noteq> data fi" using m ni by (metis image_eqI list.set_map)
    ultimately show "data fj = NULL \<or> live (h[b := None]) (data fj)"
      using live_free_other [OF lv _ _ f] by metis
  qed
  then show ?thesis using f d by (simp add: slots_valid_def)
qed

lemma slots_valid_Cons_null:
  assumes "slots_valid h (fi # fis)"
  shows "slots_valid h fis"
  using assms by (auto simp: slots_valid_def split: if_splits)

lemma exit_loop_returns:
  "n = length (g_fontInfo s) \<Longrightarrow> slots_valid (heap s) (drop i (g_fontInfo s)) \<Longrightarrow>
     \<exists>s'. exit_loop i n s = Some s'"
proof (induction i n s rule: exit_loop.induct)
  case (1 i n s)
  show ?case
  proof (cases "i < n")
    case False
    then show ?thesis by simp
  next
    case True
    let ?fi = "(g_fontInfo s ! i)\<lparr>size_info := 0\<rparr>"
    let ?s1 = "s\<lparr>g_fontInfo := (g_fontInfo s)[i := ?fi]\<rparr>"
    have dr: "drop i (g_fontInfo s) = g_fontInfo s ! i # drop (Suc i) (g_fontInfo s)"
      using True "1.prems"(1) by (simp add: Cons_nth_drop_Suc)
    have dr1: "drop (Suc i) (g_fontInfo ?s1) = drop (Suc i) (g_fontInfo s)" by simp
    show ?thesis
    proof (cases "data ?fi \<noteq> NULL")
      case nn: True
      then have "data (g_fontInfo s ! i) \<noteq> NULL" by simp
      with "1.prems"(2) dr obtain h where h: "free (heap s) (data (g_fontInfo s ! i)) = Some h"
        and v: "slots_valid h (drop (Suc i) (g_fontInfo s))"
        using slots_valid_Cons_free [of "heap s" "g_fontInfo s ! i" "drop (Suc i) (g_fontInfo s)"] by auto
      have h': "free (heap ?s1) (data ?fi) = Some h" using h by simp
      have "\<exists>s'. exit_loop (Suc i) n (?s1\<lparr>heap := h\<rparr>) = Some s'"
        using "1.prems"(1) v by (intro "1.IH"(1) [OF True refl refl nn h']) simp_all
      then show ?thesis using True nn h'
        by (subst exit_loop.simps) (simp add: Let_def)
    next
      case nu: False
      have v: "slots_valid (heap s) (drop (Suc i) (g_fontInfo s))"
        using "1.prems"(2) dr slots_valid_Cons_null by metis
      have "\<exists>s'. exit_loop (Suc i) n ?s1 = Some s'"
        using "1.prems"(1) v by (intro "1.IH"(2) [OF True refl refl nu]) simp_all
      then show ?thesis using True nu
        by (subst exit_loop.simps) (simp add: Let_def)
    qed
  qed
qed

text \<open>
  C9. With \<open>BfttfFontType_Total\<close> within the table: teardown returns on every state
  whose buffers are valid, and after it the flag is clear and a lookup of any type, with
  any output argument, fails and changes nothing.
\<close>

theorem lookup_after_bfttfExit:
  assumes "ftotal \<le> g_fontInfoCount s"
  shows "(slots_valid (heap s) (g_fontInfo s) \<longrightarrow> bfttfExit s \<noteq> None) \<and>
         (bfttfExit s = Some s' \<longrightarrow>
            \<not> g_bfttfInterfaceInit s' \<and>
            bfttfGetFontByType ftotal s' font_data font_type = Some (False, font_data, s'))"
proof (intro conjI impI)
  assume "slots_valid (heap s) (g_fontInfo s)"
  then have "\<exists>s'. exit_loop 0 (g_fontInfoCount s) s = Some s'"
    by (intro exit_loop_returns) (simp_all add: g_fontInfoCount_def)
  then show "bfttfExit s \<noteq> None" by (auto simp: bfttfExit_def)
next
  assume e: "bfttfExit s = Some s'"
  then obtain s1 where l: "exit_loop 0 (g_fontInfoCount s) s = Some s1"
    and s': "s' = s1\<lparr>g_bfttfInterfaceInit := False\<rparr>"
    by (auto simp: bfttfExit_def split: option.splits)
  from exit_loop_result [OF l] have len: "length (g_fontInfo s1) = length (g_fontInfo s)"
    and z: "\<forall>j < length (g_fontInfo s). size_info (g_fontInfo s1 ! j) = 0"
    by (simp_all add: g_fontInfoCount_def)
  show "\<not> g_bfttfInterfaceInit s'" using s' by simp
  show "bfttfGetFontByType ftotal s' font_data font_type = Some (False, font_data, s')"
    using s' len z assms
    by (auto simp: bfttfGetFontByType_def g_fontInfoCount_def Let_def split: option.splits)
qed


theorem lookup_after_bfttfExit_witness:
  "7 \<le> g_fontInfoCount state20 \<and> slots_valid (heap state20) (g_fontInfo state20) \<and>
   bfttfGetFontByType 7 state20 (Some fd0) 0 =
     Some (True, Some \<lparr>type_data = 0, size_data = 12, ptr = Ptr 0 8\<rparr>, state20) \<and>
   bfttfExit state20 = Some exited20 \<and> \<not> g_bfttfInterfaceInit exited20 \<and>
   bfttfGetFontByType 7 exited20 (Some fd0) 0 = Some (False, Some fd0, exited20)"
proof -
  have c: "7 \<le> g_fontInfoCount state20" by code_simp
  have v: "slots_valid (heap state20) (g_fontInfo state20)" by code_simp
  have l: "bfttfGetFontByType 7 state20 (Some fd0) 0 =
     Some (True, Some \<lparr>type_data = 0, size_data = 12, ptr = Ptr 0 8\<rparr>, state20)"
    by code_simp
  have e: "bfttfExit state20 = Some exited20" by code_simp
  show ?thesis
    using c v l e lookup_after_bfttfExit [OF c, of exited20 "Some fd0" 0] by simp
qed

text \<open>
  C5. Teardown evaluated on the state in which the standard font is cached: the slot ends
  with size 0 and with its pointer still set, to a block that is no longer allocated. The
  error paths of \<open>bfttfInitialize\<close> clear the pointer after \<open>free\<close>; \<open>bfttfExit\<close>
  does not. A second teardown then frees the same block again and does not return.
\<close>

theorem bfttfExit_leaves_pointer:
  "bfttfInitialize (env_first bytes20) initial_state = Some (True, state20, calls_first) \<and>
   bfttfExit state20 = Some exited20 \<and>
   size_info (g_fontInfo exited20 ! 0) = 0 \<and>
   data (g_fontInfo exited20 ! 0) = Ptr 0 0 \<and>
   block (heap exited20) 0 = None \<and>
   bfttfExit exited20 = None"
  by code_simp

theorem bfttfExit_leaves_pointer_witness:
  "bfttfExit state20 = Some exited20 \<and>
   size_info (g_fontInfo exited20 ! 0) = 0 \<and> data (g_fontInfo exited20 ! 0) \<noteq> NULL"
  using bfttfExit_leaves_pointer by simp

section \<open>The loop of bfttfInitialize\<close>

lemma unat_ucast_le: "unat (ucast (w::u64) :: u32) \<le> unat w"
  by (simp add: unsigned_ucast_eq take_bit_nat_less_eq_self)

lemma length_take_file: "length (take (unat (word_of_nat (length file) :: u64)) file) = unat (word_of_nat (length file) :: u64)"
  by (simp add: unat_of_nat)

lemma write_file_fresh:
  "write_bytes (h @ [Some (replicate (unat (word_of_nat (length fl) :: u64)) 0)]) (Ptr (length h) 0)
     (take (unat (word_of_nat (length fl) :: u64)) fl) =
   Some (h @ [Some (take (unat (word_of_nat (length fl) :: u64)) fl)])"
proof -
  have "length (take (unat (word_of_nat (length fl) :: u64)) fl) = unat (word_of_nat (length fl) :: u64)"
    by (rule length_take_file)
  then show ?thesis by (simp add: block_def del: length_take)
qed

lemma load_font_ok:
  assumes "fetch_ok e i (g_fontInfo (st l) ! i)"
  shows "\<exists>l' fl. load_font e i l = Some l' \<and>
      romfsGetFileEntryByPath e i (path (g_fontInfo (st l) ! i)) = Some fl \<and>
      count l' = count l + 1 \<and> prev_title_id l' = prev_title_id l \<and>
      (\<exists>cs. calls l' = calls l @ cs) \<and>
      g_bfttfInterfaceInit (st l') = g_bfttfInterfaceInit (st l) \<and>
      g_fontInfo (st l') = (g_fontInfo (st l))
         [i := (g_fontInfo (st l) ! i)\<lparr>data := Ptr (length (heap (st l))) 0,
                                        size_info := ucast (word_of_nat (length fl) :: u64)\<rparr>] \<and>
      8 < (ucast (word_of_nat (length fl) :: u64) :: u32) \<and>
      heap (st l') = heap (st l) @ [Some (decoded_file fl)]"
proof -
  let ?fi = "g_fontInfo (st l) ! i"
  let ?h = "heap (st l)"
  from assms obtain fl where f: "romfsGetFileEntryByPath e i (path ?fi) = Some fl"
    by (auto simp: fetch_ok_def split: option.splits)
  let ?fsize = "word_of_nat (length fl) :: u64"
  let ?sz = "ucast ?fsize :: u32"
  from assms f have nz: "?fsize \<noteq> 0" and m: "malloc_ok e i" and r: "romfsReadFileEntryData e i"
    and g: "8 < ?sz" and al: "IS_ALIGNED ?sz 4"
    by (simp_all add: fetch_ok_def Let_def)
  let ?buf = "take (unat ?fsize) fl"
  let ?h2 = "?h @ [Some ?buf]"
  let ?fi2 = "?fi\<lparr>data := Ptr (length ?h) 0, size_info := ?sz\<rparr>"
  have h2: "write_bytes (?h @ [Some (replicate (unat ?fsize) 0)]) (Ptr (length ?h) 0) ?buf = Some ?h2"
    by (rule write_file_fresh)
  have d: "bfttfDecodeFont ?h2 (Some ?fi2) =
      Some (True, ?h2[length ?h := Some (xor_bytes ?buf (0 + 8) (0 + (unat (size_info ?fi2) - 8)))])"
  proof (rule bfttfDecodeFont_valid)
    show "8 < size_info ?fi2" using g by simp
    show "4 dvd unat (size_info ?fi2)" using al by (simp add: IS_ALIGNED_4)
    show "data ?fi2 = Ptr (length ?h) 0" by simp
    show "block ?h2 (length ?h) = Some ?buf" by (simp add: block_def)
    show "0 + unat (size_info ?fi2) \<le> length ?buf"
      using unat_ucast_le [of ?fsize] by (simp add: length_take_file del: length_take)
  qed
  have d': "bfttfDecodeFont ?h2 (Some ?fi2) = Some (True, ?h @ [Some (decoded_file fl)])"
    using d by (simp add: decoded_file_def Let_def)
  show ?thesis
    using f nz m r g d'
    by (simp add: load_font_def Let_def malloc_def h2 set_font_info_def del: write_bytes.simps)
qed


lemma free_fresh: "free (h @ [Some buf]) (Ptr (length h) 0) = Some (h @ [None])"
  by (simp add: block_def)


lemma load_font_fail:
  assumes "\<not> fetch_ok e i (g_fontInfo (st l) ! i)"
  shows "\<exists>l' fi' h'. load_font e i l = Some l' \<and>
      count l' = count l \<and> prev_title_id l' = prev_title_id l \<and>
      (\<exists>cs. calls l' = calls l @ cs) \<and>
      g_bfttfInterfaceInit (st l') = g_bfttfInterfaceInit (st l) \<and>
      g_fontInfo (st l') = (g_fontInfo (st l))[i := fi'] \<and>
      heap (st l') = heap (st l) @ h' \<and>
      (h' = [] \<or> h' = [None]) \<and>
      (fi' = g_fontInfo (st l) ! i \<or> fi' = (g_fontInfo (st l) ! i)\<lparr>data := NULL\<rparr> \<or>
       fi' = (g_fontInfo (st l) ! i)\<lparr>data := NULL, size_info := 0\<rparr>)"
proof -
  let ?fi = "g_fontInfo (st l) ! i"
  let ?h = "heap (st l)"
  show ?thesis
  proof (cases "romfsGetFileEntryByPath e i (path ?fi)")
    case None
    then have "load_font e i l = Some (l\<lparr>calls := calls l @ [Call_romfsGetFileEntryByPath (path ?fi)]\<rparr>)"
      by (simp add: load_font_def Let_def)
    then show ?thesis
      by (intro exI [of _ "l\<lparr>calls := calls l @ [Call_romfsGetFileEntryByPath (path ?fi)]\<rparr>"]
          exI [of _ ?fi] exI [of _ "[]"]) simp
  next
    case (Some fl)
    let ?fsize = "word_of_nat (length fl) :: u64"
    let ?sz = "ucast ?fsize :: u32"
    show ?thesis
    proof (cases "?fsize = 0")
      case True
      then have "load_font e i l = Some (l\<lparr>calls := calls l @ [Call_romfsGetFileEntryByPath (path ?fi)]\<rparr>)"
        using Some by (simp add: load_font_def Let_def)
      then show ?thesis
        by (intro exI [of _ "l\<lparr>calls := calls l @ [Call_romfsGetFileEntryByPath (path ?fi)]\<rparr>"]
            exI [of _ ?fi] exI [of _ "[]"]) simp
    next
      case nz: False
      show ?thesis
      proof (cases "malloc_ok e i")
        case False
        then have "load_font e i l =
            Some (l\<lparr>calls := calls l @ [Call_romfsGetFileEntryByPath (path ?fi)],
                    st := set_font_info (st l) i (?fi\<lparr>data := NULL\<rparr>)\<rparr>)"
          using Some nz by (simp add: load_font_def Let_def)
        then show ?thesis
          by (intro exI [of _ "l\<lparr>calls := calls l @ [Call_romfsGetFileEntryByPath (path ?fi)],
                    st := set_font_info (st l) i (?fi\<lparr>data := NULL\<rparr>)\<rparr>"]
              exI [of _ "?fi\<lparr>data := NULL\<rparr>"] exI [of _ "[]"]) (simp add: set_font_info_def)
      next
        case m: True
        show ?thesis
        proof (cases "romfsReadFileEntryData e i")
          case False
          then have "load_font e i l =
              Some (l\<lparr>calls := calls l @ [Call_romfsGetFileEntryByPath (path ?fi),
                                           Call_romfsReadFileEntryData (path ?fi)],
                      st := set_font_info ((st l)\<lparr>heap := ?h @ [None]\<rparr>) i (?fi\<lparr>data := NULL\<rparr>)\<rparr>)"
            using Some nz m by (simp add: load_font_def Let_def malloc_def block_def)
          then show ?thesis
            by (intro exI [of _ "l\<lparr>calls := calls l @ [Call_romfsGetFileEntryByPath (path ?fi),
                                           Call_romfsReadFileEntryData (path ?fi)],
                      st := set_font_info ((st l)\<lparr>heap := ?h @ [None]\<rparr>) i (?fi\<lparr>data := NULL\<rparr>)\<rparr>"]
                exI [of _ "?fi\<lparr>data := NULL\<rparr>"] exI [of _ "[None]"]) (simp add: set_font_info_def)
        next
          case r: True
          let ?buf = "take (unat ?fsize) fl"
          let ?h2 = "?h @ [Some ?buf]"
          let ?fi2 = "?fi\<lparr>data := Ptr (length ?h) 0, size_info := ?sz\<rparr>"
          from assms Some nz m r have inv: "?sz \<le> 8 \<or> \<not> IS_ALIGNED ?sz 4"
            by (auto simp: fetch_ok_def Let_def)
          then have d: "bfttfDecodeFont ?h2 (Some ?fi2) = Some (False, ?h2)"
            by (auto simp: bfttfDecodeFont_def)
          have w: "write_bytes (?h @ [Some (replicate (unat ?fsize) 0)]) (Ptr (length ?h) 0) ?buf = Some ?h2"
            by (rule write_file_fresh)
          have "load_font e i l =
              Some (l\<lparr>calls := calls l @ [Call_romfsGetFileEntryByPath (path ?fi),
                                           Call_romfsReadFileEntryData (path ?fi)],
                      st := set_font_info ((st l)\<lparr>heap := ?h @ [None]\<rparr>) i
                              (?fi\<lparr>data := NULL, size_info := 0\<rparr>)\<rparr>)"
            using Some nz m r d by (simp add: load_font_def Let_def malloc_def w free_fresh del: write_bytes.simps free.simps)
          then show ?thesis
            by (intro exI [of _ "l\<lparr>calls := calls l @ [Call_romfsGetFileEntryByPath (path ?fi),
                                           Call_romfsReadFileEntryData (path ?fi)],
                      st := set_font_info ((st l)\<lparr>heap := ?h @ [None]\<rparr>) i
                              (?fi\<lparr>data := NULL, size_info := 0\<rparr>)\<rparr>"]
                exI [of _ "?fi\<lparr>data := NULL, size_info := 0\<rparr>"] exI [of _ "[None]"])
              (simp add: set_font_info_def)
        qed
      qed
    qed
  qed
qed


lemma open_container_fail:
  assumes "\<not> (titleGetInfoFromStorageByTitleId e i tid \<and> ncaInitializeContext e i tid \<and>
             romfsInitializeContext e i tid)"
  shows "\<exists>evs. open_container e i tid = (False, Call_titleGetInfoFromStorageByTitleId tid # evs)"
proof (cases "titleGetInfoFromStorageByTitleId e i tid")
  case False
  then show ?thesis by (simp add: open_container_def)
next
  case t: True
  show ?thesis
  proof (cases "ncaInitializeContext e i tid")
    case False
    then show ?thesis using t by (simp add: open_container_def)
  next
    case True
    then show ?thesis using t assms by (simp add: open_container_def)
  qed
qed

lemma open_container_ok:
  assumes "titleGetInfoFromStorageByTitleId e i tid \<and> ncaInitializeContext e i tid \<and>
           romfsInitializeContext e i tid"
  shows "open_container e i tid =
     (True, [Call_titleGetInfoFromStorageByTitleId tid, Call_ncaInitializeContext tid,
             Call_romfsInitializeContext tid])"
  using assms by (simp add: open_container_def)

lemma init_body_result:
  "\<exists>l' fi' h'. init_body e i l = Some l' \<and>
      (\<exists>cs. calls l' = calls l @ cs) \<and>
      g_bfttfInterfaceInit (st l') = g_bfttfInterfaceInit (st l) \<and>
      g_fontInfo (st l') = (g_fontInfo (st l))[i := fi'] \<and>
      heap (st l') = heap (st l) @ h' \<and>
      prev_title_id l' =
        (if title_id (g_fontInfo (st l) ! i) \<noteq> prev_title_id l \<and> open_ok e i (g_fontInfo (st l) ! i)
         then title_id (g_fontInfo (st l) ! i) else prev_title_id l) \<and>
      ((count l' = count l \<and> (h' = [] \<or> h' = [None]) \<and>
        slot_skipped (g_fontInfo (st l) ! i) fi' \<and>
        \<not> ((title_id (g_fontInfo (st l) ! i) = prev_title_id l \<or> open_ok e i (g_fontInfo (st l) ! i)) \<and>
           fetch_ok e i (g_fontInfo (st l) ! i)) \<and>
        (title_id (g_fontInfo (st l) ! i) = prev_title_id l \<or> open_ok e i (g_fontInfo (st l) ! i) \<or>
         fi' = g_fontInfo (st l) ! i)) \<or>
       (count l' = count l + 1 \<and>
        slot_loaded e i (length (heap (st l))) (heap (st l')) (g_fontInfo (st l) ! i) fi' \<and>
        (title_id (g_fontInfo (st l) ! i) = prev_title_id l \<or> open_ok e i (g_fontInfo (st l) ! i)) \<and>
        data fi' = Ptr (length (heap (st l))) 0 \<and> (\<exists>buf. h' = [Some buf])))"
proof -
  let ?fi = "g_fontInfo (st l) ! i"
  let ?G = ?thesis
  have skip: "\<And>l0. st l0 = st l \<Longrightarrow> count l0 = count l \<Longrightarrow> (\<exists>cs. calls l0 = calls l @ cs) \<Longrightarrow>
      init_body e i l = load_font e i l0 \<Longrightarrow>
      prev_title_id l0 = (if title_id ?fi \<noteq> prev_title_id l \<and> open_ok e i ?fi
                          then title_id ?fi else prev_title_id l) \<Longrightarrow>
      title_id ?fi = prev_title_id l \<or> open_ok e i ?fi \<Longrightarrow> ?G"
  proof -
    fix l0 assume a: "st l0 = st l" "count l0 = count l" "\<exists>cs. calls l0 = calls l @ cs"
      "init_body e i l = load_font e i l0"
      and pv: "prev_title_id l0 = (if title_id ?fi \<noteq> prev_title_id l \<and> open_ok e i ?fi
                          then title_id ?fi else prev_title_id l)"
      and rdy: "title_id ?fi = prev_title_id l \<or> open_ok e i ?fi"
    show ?G
    proof (cases "fetch_ok e i ?fi")
      case True
      then have "fetch_ok e i (g_fontInfo (st l0) ! i)" using a by simp
      from load_font_ok [OF this] obtain l' fl where r: "load_font e i l0 = Some l'"
        "romfsGetFileEntryByPath e i (path ?fi) = Some fl"
        "count l' = count l + 1" "\<exists>cs. calls l' = calls l0 @ cs"
        "g_bfttfInterfaceInit (st l') = g_bfttfInterfaceInit (st l)"
        "g_fontInfo (st l') = (g_fontInfo (st l))
           [i := ?fi\<lparr>data := Ptr (length (heap (st l))) 0,
                      size_info := ucast (word_of_nat (length fl) :: u64)\<rparr>]"
        "8 < (ucast (word_of_nat (length fl) :: u64) :: u32)"
        "heap (st l') = heap (st l) @ [Some (decoded_file fl)]"
        "prev_title_id l' = prev_title_id l0"
        using a by auto
      have c: "\<exists>cs. calls l' = calls l @ cs" using r(4) a(3) by auto
      have sl: "slot_loaded e i (length (heap (st l))) (heap (st l')) ?fi
          (?fi\<lparr>data := Ptr (length (heap (st l))) 0, size_info := ucast (word_of_nat (length fl) :: u64)\<rparr>)"
        using r True by (simp add: slot_loaded_def block_def)
      show ?G
        using a(4) r c sl pv rdy
        by (intro exI [of _ l'] exI [of _ "?fi\<lparr>data := Ptr (length (heap (st l))) 0,
                      size_info := ucast (word_of_nat (length fl) :: u64)\<rparr>"]
            exI [of _ "[Some (decoded_file fl)]"]) simp
    next
      case False
      then have "\<not> fetch_ok e i (g_fontInfo (st l0) ! i)" using a by simp
      from load_font_fail [OF this] obtain l' fi' h' where r: "load_font e i l0 = Some l'"
        "count l' = count l" "\<exists>cs. calls l' = calls l0 @ cs"
        "g_bfttfInterfaceInit (st l') = g_bfttfInterfaceInit (st l)"
        "g_fontInfo (st l') = (g_fontInfo (st l))[i := fi']"
        "heap (st l') = heap (st l) @ h'" "h' = [] \<or> h' = [None]"
        "fi' = ?fi \<or> fi' = ?fi\<lparr>data := NULL\<rparr> \<or> fi' = ?fi\<lparr>data := NULL, size_info := 0\<rparr>"
        "prev_title_id l' = prev_title_id l0"
        using a by auto
      have c: "\<exists>cs. calls l' = calls l @ cs" using r(3) a(3) by auto
      show ?G
        using a(4) r c False pv rdy
        by (intro exI [of _ l'] exI [of _ fi'] exI [of _ h']) (auto simp add: slot_skipped_def)
    qed
  qed
  show ?thesis
  proof (cases "title_id ?fi \<noteq> prev_title_id l")
    case False
    then have "init_body e i l = load_font e i l" by (simp add: init_body_def Let_def)
    then show ?thesis using False by (intro skip [of l]) auto
  next
    case True
    show ?thesis
    proof (cases "open_ok e i ?fi")
      case o: True
      then have "open_container e i (title_id ?fi) =
          (True, [Call_titleGetInfoFromStorageByTitleId (title_id ?fi),
                  Call_ncaInitializeContext (title_id ?fi),
                  Call_romfsInitializeContext (title_id ?fi)])"
        by (simp add: open_container_def open_ok_def)
      then have "init_body e i l = load_font e i
          (l\<lparr>prev_title_id := title_id ?fi,
             calls := calls l @ [Call_titleGetInfoFromStorageByTitleId (title_id ?fi),
                  Call_ncaInitializeContext (title_id ?fi),
                  Call_romfsInitializeContext (title_id ?fi)]\<rparr>)"
        using True by (simp add: init_body_def Let_def)
      then show ?thesis using True o
        by (intro skip [of "l\<lparr>prev_title_id := title_id ?fi,
             calls := calls l @ [Call_titleGetInfoFromStorageByTitleId (title_id ?fi),
                  Call_ncaInitializeContext (title_id ?fi),
                  Call_romfsInitializeContext (title_id ?fi)]\<rparr>"]) auto
    next
      case o: False
      then obtain evs where "open_container e i (title_id ?fi) = (False, evs)"
        using open_container_fail [of e i "title_id ?fi"] by (auto simp: open_ok_def)
      then have "init_body e i l = Some (l\<lparr>calls := calls l @ evs\<rparr>)"
        using True by (simp add: init_body_def Let_def)
      then show ?thesis using o True
        by (intro exI [of _ "l\<lparr>calls := calls l @ evs\<rparr>"] exI [of _ ?fi] exI [of _ "[]"])
          (simp add: slot_skipped_def)
    qed
  qed
qed


lemma block_append: "block h b = Some x \<Longrightarrow> block (h @ h') b = Some x"
  by (auto simp: block_def nth_append split: if_splits)

lemma block_append_dead:
  "h' = [] \<or> h' = [None] \<Longrightarrow> block (h @ h') b = block h b"
  by (auto simp: block_def nth_append)

lemma block_append_cases:
  "block (h @ [x]) b = (if b = length h then x else block h b)"
  by (auto simp: block_def nth_append)

lemma slot_loaded_append:
  "slot_loaded e j n0 h fi fi' \<Longrightarrow> slot_loaded e j n0 (h @ h') fi fi'"
  by (auto simp: slot_loaded_def block_append split: option.splits pointer.splits)

lemma slot_loaded_append_dead:
  "h' = [] \<or> h' = [None] \<Longrightarrow> slot_loaded e j n0 (h @ h') fi fi' = slot_loaded e j n0 h fi fi'"
  by (auto simp: slot_loaded_def block_append_dead split: option.splits pointer.splits)

lemma slot_loaded_size: "slot_loaded e j n0 h fi fi' \<Longrightarrow> 8 < size_info fi'"
  by (auto simp: slot_loaded_def split: option.splits)

lemma slot_skipped_size: "slot_skipped fi fi' \<Longrightarrow> size_info fi = 0 \<Longrightarrow> size_info fi' = 0"
  by (auto simp: slot_skipped_def)

lemma init_inv_step:
  assumes inv: "init_inv e s0 i l" and i: "i < length (g_fontInfo s0)"
    and z: "\<forall>fi \<in> set (g_fontInfo s0). size_info fi = 0"
  shows "\<exists>l'. init_body e i l = Some l' \<and> init_inv e s0 (Suc i) l'"
proof -
  let ?n0 = "length (heap s0)"
  let ?xs = "g_fontInfo (st l)"
  let ?h = "heap (st l)"
  from inv have len: "length ?xs = length (g_fontInfo s0)"
    and flag: "g_bfttfInterfaceInit (st l) = g_bfttfInterfaceInit s0"
    and rest: "\<forall>j. i \<le> j \<and> j < length (g_fontInfo s0) \<longrightarrow> ?xs ! j = g_fontInfo s0 ! j"
    and dn: "\<forall>j<i. entry_done e s0 (st l) j"
    and cnt: "0 < count l \<longleftrightarrow> (\<exists>j<i. slot_loaded e j ?n0 ?h (g_fontInfo s0 ! j) (?xs ! j))"
    and leak: "\<forall>b. ?n0 \<le> b \<and> block ?h b \<noteq> None \<longrightarrow>
          (\<exists>j<i. data (?xs ! j) = Ptr b 0 \<and> 8 < size_info (?xs ! j))"
    and pv: "prev_title_id l = remembered_title_id e (g_fontInfo s0) i"
    by (simp_all add: init_inv_def)
  from inv obtain hx where hx: "?h = heap s0 @ hx" by (auto simp: init_inv_def)
  have cur: "?xs ! i = g_fontInfo s0 ! i" using rest i by simp
  have z0: "size_info (g_fontInfo s0 ! i) = 0" using z i by simp
  from init_body_result [of e i l] obtain l' fi' h' where
    b: "init_body e i l = Some l'"
    and fl: "g_bfttfInterfaceInit (st l') = g_bfttfInterfaceInit (st l)"
    and xs': "g_fontInfo (st l') = ?xs[i := fi']"
    and hp': "heap (st l') = ?h @ h'"
    and pv': "prev_title_id l' =
        (if title_id (?xs ! i) \<noteq> prev_title_id l \<and> open_ok e i (?xs ! i)
         then title_id (?xs ! i) else prev_title_id l)"
    and oc: "(count l' = count l \<and> (h' = [] \<or> h' = [None]) \<and>
        slot_skipped (?xs ! i) fi' \<and>
        \<not> ((title_id (?xs ! i) = prev_title_id l \<or> open_ok e i (?xs ! i)) \<and> fetch_ok e i (?xs ! i)) \<and>
        (title_id (?xs ! i) = prev_title_id l \<or> open_ok e i (?xs ! i) \<or> fi' = ?xs ! i)) \<or>
       (count l' = count l + 1 \<and>
        slot_loaded e i (length ?h) (heap (st l')) (?xs ! i) fi' \<and>
        (title_id (?xs ! i) = prev_title_id l \<or> open_ok e i (?xs ! i)) \<and>
        data fi' = Ptr (length ?h) 0 \<and> (\<exists>buf. h' = [Some buf]))"
    by blast
  have rdy: "container_ready e (g_fontInfo s0) i \<longleftrightarrow>
      (title_id (?xs ! i) = prev_title_id l \<or> open_ok e i (?xs ! i))"
    using cur pv by (simp add: container_ready_def)
  have c8: "prev_title_id l' = remembered_title_id e (g_fontInfo s0) (Suc i)"
    using pv' cur pv by simp
  have nth_i: "g_fontInfo (st l') ! i = fi'" using xs' i len by simp
  have nth_o: "\<And>j. j \<noteq> i \<Longrightarrow> g_fontInfo (st l') ! j = ?xs ! j" using xs' by simp
  have old: "\<And>j. j < i \<Longrightarrow> entry_done e s0 (st l') j"
  proof -
    fix j assume j: "j < i"
    then have "entry_done e s0 (st l) j" using dn by simp
    then show "entry_done e s0 (st l') j"
      using nth_o [of j] j hp' by (auto simp: entry_done_def slot_loaded_append)
  qed
  have c1: "length (g_fontInfo (st l')) = length (g_fontInfo s0)" using xs' len by simp
  have c2: "g_bfttfInterfaceInit (st l') = g_bfttfInterfaceInit s0" using fl flag by simp
  have c3: "\<exists>hy. heap (st l') = heap s0 @ hy" using hp' hx by simp
  have c4: "\<forall>j. Suc i \<le> j \<and> j < length (g_fontInfo s0) \<longrightarrow> g_fontInfo (st l') ! j = g_fontInfo s0 ! j"
    using rest nth_o by simp
  from oc show ?thesis
  proof
    assume f: "count l' = count l \<and> (h' = [] \<or> h' = [None]) \<and>
        slot_skipped (?xs ! i) fi' \<and>
        \<not> ((title_id (?xs ! i) = prev_title_id l \<or> open_ok e i (?xs ! i)) \<and> fetch_ok e i (?xs ! i)) \<and>
        (title_id (?xs ! i) = prev_title_id l \<or> open_ok e i (?xs ! i) \<or> fi' = ?xs ! i)"
    then have dead: "h' = [] \<or> h' = [None]" by simp
    from f cur have "slot_skipped (g_fontInfo s0 ! i) fi'" by simp
    then have sz: "size_info fi' = 0" using z0 by (rule slot_skipped_size)
    have nl: "\<not> slot_loaded e i ?n0 (heap (st l')) (g_fontInfo s0 ! i) fi'"
    proof
      assume "slot_loaded e i ?n0 (heap (st l')) (g_fontInfo s0 ! i) fi'"
      then have "8 < size_info fi'" by (rule slot_loaded_size)
      with sz show False by simp
    qed
    have di: "entry_done e s0 (st l') i"
      using f cur nth_i rdy by (auto simp: entry_done_def)
    have c5: "\<forall>j<Suc i. entry_done e s0 (st l') j"
      using old di by (auto simp: less_Suc_eq)
    have same: "\<And>j. j < i \<Longrightarrow>
        slot_loaded e j ?n0 (heap (st l')) (g_fontInfo s0 ! j) (g_fontInfo (st l') ! j) =
        slot_loaded e j ?n0 ?h (g_fontInfo s0 ! j) (?xs ! j)"
      using nth_o hp' dead by (simp add: slot_loaded_append_dead)
    have c6: "0 < count l' \<longleftrightarrow>
        (\<exists>j<Suc i. slot_loaded e j ?n0 (heap (st l')) (g_fontInfo s0 ! j) (g_fontInfo (st l') ! j))"
      using f cnt same nl nth_i by (auto simp: less_Suc_eq)
    have c7: "\<forall>b. ?n0 \<le> b \<and> block (heap (st l')) b \<noteq> None \<longrightarrow>
          (\<exists>j<Suc i. data (g_fontInfo (st l') ! j) = Ptr b 0 \<and> 8 < size_info (g_fontInfo (st l') ! j))"
    proof (intro allI impI)
      fix b assume "?n0 \<le> b \<and> block (heap (st l')) b \<noteq> None"
      then have "?n0 \<le> b \<and> block ?h b \<noteq> None" using hp' dead by (simp add: block_append_dead)
      then obtain j where "j < i" "data (?xs ! j) = Ptr b 0" "8 < size_info (?xs ! j)"
        using leak by blast
      then show "\<exists>j<Suc i. data (g_fontInfo (st l') ! j) = Ptr b 0 \<and> 8 < size_info (g_fontInfo (st l') ! j)"
        using nth_o [of j] by (intro exI [of _ j]) simp
    qed
    have "init_inv e s0 (Suc i) l'"
      unfolding init_inv_def by (intro conjI c1 c2 c3 c4 c5 c6 c7 c8)
    then show ?thesis using b by simp
  next
    assume s: "count l' = count l + 1 \<and>
        slot_loaded e i (length ?h) (heap (st l')) (?xs ! i) fi' \<and>
        (title_id (?xs ! i) = prev_title_id l \<or> open_ok e i (?xs ! i)) \<and>
        data fi' = Ptr (length ?h) 0 \<and> (\<exists>buf. h' = [Some buf])"
    then obtain buf where buf: "h' = [Some buf]" by blast
    have ge: "?n0 \<le> length ?h" using hx by simp
    have li: "slot_loaded e i ?n0 (heap (st l')) (g_fontInfo s0 ! i) fi'"
      using s cur ge by (auto simp: slot_loaded_def split: option.splits pointer.splits)
    have di: "entry_done e s0 (st l') i"
      using li nth_i s rdy by (simp add: entry_done_def)
    have c5: "\<forall>j<Suc i. entry_done e s0 (st l') j"
      using old di by (auto simp: less_Suc_eq)
    have c6: "0 < count l' \<longleftrightarrow>
        (\<exists>j<Suc i. slot_loaded e j ?n0 (heap (st l')) (g_fontInfo s0 ! j) (g_fontInfo (st l') ! j))"
      using s li nth_i by auto
    have c7: "\<forall>b. ?n0 \<le> b \<and> block (heap (st l')) b \<noteq> None \<longrightarrow>
          (\<exists>j<Suc i. data (g_fontInfo (st l') ! j) = Ptr b 0 \<and> 8 < size_info (g_fontInfo (st l') ! j))"
    proof (intro allI impI)
      fix b assume a: "?n0 \<le> b \<and> block (heap (st l')) b \<noteq> None"
      show "\<exists>j<Suc i. data (g_fontInfo (st l') ! j) = Ptr b 0 \<and> 8 < size_info (g_fontInfo (st l') ! j)"
      proof (cases "b = length ?h")
        case True
        then show ?thesis using s nth_i slot_loaded_size [OF li]
          by (intro exI [of _ i]) simp
      next
        case False
        then have "?n0 \<le> b \<and> block ?h b \<noteq> None"
          using a hp' buf by (simp add: block_append_cases)
        then obtain j where "j < i" "data (?xs ! j) = Ptr b 0" "8 < size_info (?xs ! j)"
          using leak by blast
        then show ?thesis using nth_o [of j] by (intro exI [of _ j]) simp
      qed
    qed
    have "init_inv e s0 (Suc i) l'"
      unfolding init_inv_def by (intro conjI c1 c2 c3 c4 c5 c6 c7 c8)
    then show ?thesis using b by simp
  qed
qed

lemma init_loop_inv:
  assumes "init_inv e s0 i l" "i \<le> n" "n = length (g_fontInfo s0)"
    "\<forall>fi \<in> set (g_fontInfo s0). size_info fi = 0"
  shows "\<exists>l'. init_loop e i n l = Some l' \<and> init_inv e s0 n l'"
  using assms
proof (induction "n - i" arbitrary: i l)
  case 0
  then have "i = n" by simp
  then show ?case using "0.prems"(1) by simp
next
  case (Suc k)
  then have lt: "i < n" by simp
  then have "i < length (g_fontInfo s0)" using Suc.prems(3) by simp
  from init_inv_step [OF Suc.prems(1) this Suc.prems(4)] obtain l1 where
    b: "init_body e i l = Some l1" and inv1: "init_inv e s0 (Suc i) l1" by blast
  have "\<exists>l'. init_loop e (Suc i) n l1 = Some l' \<and> init_inv e s0 n l'"
    using Suc.hyps(2) lt Suc.prems(3,4) inv1 by (intro Suc.hyps(1)) simp_all
  then show ?case using lt b by (subst init_loop.simps) simp
qed

lemma init_inv_start:
  "init_inv e s 0 \<lparr>count = 0, prev_title_id = 0, st = s, calls = []\<rparr>"
  by (simp add: init_inv_def block_def)

section \<open>Properties of bfttfInitialize\<close>

lemma slot_loaded_fetch: "slot_loaded e j n0 h fi fi' \<Longrightarrow> fetch_ok e j fi"
  by (auto simp: slot_loaded_def split: option.splits)

text \<open>
  C6. From a state that is not initialised and whose slots all have size 0 (as at program
  start), \<open>bfttfInitialize\<close> returns, and the flag it returns is the new value of
  \<open>g_bfttfInterfaceInit\<close>; it is true exactly when some entry was fetched and decoded,
  that is, when some slot holds the decoded file in a block allocated by this call. Every
  entry is either loaded in this sense or skipped with size 0 and its slot unchanged or its
  pointer cleared; an entry for which nothing fails (the NCA context was allocated, the
  container opens, the file is found, not empty, allocated, read and of a size the decoder
  accepts) is loaded whatever happened to the other entries. The blocks that existed
  before are untouched, and every block allocated by the call that is still allocated is
  the buffer of a loaded slot: what a failed entry allocated has been released.
  An entry is loaded exactly when nothing fails for it: the NCA context was allocated, its
  container is ready (it has the title ID of the last container opened with success, or
  the open made for it succeeds in all three steps) and its fetch succeeds. An entry whose
  container open fails is therefore never loaded, and its slot is left as it was.
\<close>

theorem bfttfInitialize_outcome:
  assumes ni: "\<not> g_bfttfInterfaceInit s" and z: "\<forall>fi \<in> set (g_fontInfo s). size_info fi = 0"
  shows "\<exists>r s' c. bfttfInitialize e s = Some (r, s', c) \<and>
     g_bfttfInterfaceInit s' = r \<and>
     length (g_fontInfo s') = length (g_fontInfo s) \<and>
     (r \<longleftrightarrow> (\<exists>i < length (g_fontInfo s).
              slot_loaded e i (length (heap s)) (heap s') (g_fontInfo s ! i) (g_fontInfo s' ! i))) \<and>
     (\<forall>i < length (g_fontInfo s).
        slot_loaded e i (length (heap s)) (heap s') (g_fontInfo s ! i) (g_fontInfo s' ! i) \<or>
        (slot_skipped (g_fontInfo s ! i) (g_fontInfo s' ! i) \<and> size_info (g_fontInfo s' ! i) = 0)) \<and>
     (\<forall>i < length (g_fontInfo s).
        calloc_nca_ctx e \<and> open_ok e i (g_fontInfo s ! i) \<and> fetch_ok e i (g_fontInfo s ! i) \<longrightarrow>
        slot_loaded e i (length (heap s)) (heap s') (g_fontInfo s ! i) (g_fontInfo s' ! i)) \<and>
     (\<exists>hx. heap s' = heap s @ hx) \<and>
     (\<forall>b. length (heap s) \<le> b \<and> block (heap s') b \<noteq> None \<longrightarrow>
        (\<exists>i < length (g_fontInfo s). data (g_fontInfo s' ! i) = Ptr b 0 \<and>
                                      8 < size_info (g_fontInfo s' ! i))) \<and>
     (\<forall>i < length (g_fontInfo s).
        slot_loaded e i (length (heap s)) (heap s') (g_fontInfo s ! i) (g_fontInfo s' ! i) \<longleftrightarrow>
        calloc_nca_ctx e \<and> container_ready e (g_fontInfo s) i \<and> fetch_ok e i (g_fontInfo s ! i)) \<and>
     (\<forall>i < length (g_fontInfo s).
        \<not> container_ready e (g_fontInfo s) i \<longrightarrow> g_fontInfo s' ! i = g_fontInfo s ! i)"
proof (cases "calloc_nca_ctx e")
  case False
  then have r: "bfttfInitialize e s = Some (False, s, [])"
    using ni by (simp add: bfttfInitialize_def)
  have nl: "\<And>i. i < length (g_fontInfo s) \<Longrightarrow>
      \<not> slot_loaded e i (length (heap s)) (heap s) (g_fontInfo s ! i) (g_fontInfo s ! i)"
  proof
    fix i assume i: "i < length (g_fontInfo s)"
      and "slot_loaded e i (length (heap s)) (heap s) (g_fontInfo s ! i) (g_fontInfo s ! i)"
    then have "8 < size_info (g_fontInfo s ! i)" by (simp add: slot_loaded_size)
    moreover have "size_info (g_fontInfo s ! i) = 0" using z i by simp
    ultimately show False by simp
  qed
  have sk: "\<And>i. i < length (g_fontInfo s) \<Longrightarrow>
      slot_skipped (g_fontInfo s ! i) (g_fontInfo s ! i) \<and> size_info (g_fontInfo s ! i) = 0"
    using z by (simp add: slot_skipped_def)
  have nb: "\<And>b. length (heap s) \<le> b \<Longrightarrow> block (heap s) b = None"
    by (simp add: block_def)
  show ?thesis
    using r ni False nl sk nb
    by (intro exI [of _ False] exI [of _ s] exI [of _ "[]"]) auto
next
  case True
  let ?n = "length (g_fontInfo s)"
  let ?l0 = "\<lparr>count = 0, prev_title_id = 0, st = s, calls = []\<rparr>"
  have "\<exists>l'. init_loop e 0 ?n ?l0 = Some l' \<and> init_inv e s ?n l'"
    using z by (intro init_loop_inv init_inv_start) simp_all
  then obtain l' where lp: "init_loop e 0 ?n ?l0 = Some l'" and inv: "init_inv e s ?n l'"
    by auto
  let ?s' = "(st l')\<lparr>g_bfttfInterfaceInit := (0 < count l')\<rparr>"
  have r: "bfttfInitialize e s = Some (0 < count l', ?s', calls l')"
    using ni True lp by (simp add: bfttfInitialize_def g_fontInfoCount_def)
  from inv have len: "length (g_fontInfo (st l')) = ?n"
    and dn: "\<forall>j < ?n. entry_done e s (st l') j"
    and cnt: "0 < count l' \<longleftrightarrow> (\<exists>j < ?n. slot_loaded e j (length (heap s)) (heap (st l'))
          (g_fontInfo s ! j) (g_fontInfo (st l') ! j))"
    and leak: "\<forall>b. length (heap s) \<le> b \<and> block (heap (st l')) b \<noteq> None \<longrightarrow>
          (\<exists>j < ?n. data (g_fontInfo (st l') ! j) = Ptr b 0 \<and> 8 < size_info (g_fontInfo (st l') ! j))"
    and hx: "\<exists>hx. heap (st l') = heap s @ hx"
    by (simp_all add: init_inv_def)
  have each: "\<And>i. i < ?n \<Longrightarrow>
      (slot_loaded e i (length (heap s)) (heap (st l')) (g_fontInfo s ! i) (g_fontInfo (st l') ! i) \<and>
       container_ready e (g_fontInfo s) i \<and> fetch_ok e i (g_fontInfo s ! i)) \<or>
      (\<not> slot_loaded e i (length (heap s)) (heap (st l')) (g_fontInfo s ! i) (g_fontInfo (st l') ! i) \<and>
       slot_skipped (g_fontInfo s ! i) (g_fontInfo (st l') ! i) \<and>
       size_info (g_fontInfo (st l') ! i) = 0 \<and>
       \<not> (container_ready e (g_fontInfo s) i \<and> fetch_ok e i (g_fontInfo s ! i)) \<and>
       (container_ready e (g_fontInfo s) i \<or> g_fontInfo (st l') ! i = g_fontInfo s ! i))"
  proof -
    fix i assume i: "i < ?n"
    then have ed: "entry_done e s (st l') i" using dn by simp
    have z0: "size_info (g_fontInfo s ! i) = 0" using z i by simp
    let ?L = "slot_loaded e i (length (heap s)) (heap (st l')) (g_fontInfo s ! i) (g_fontInfo (st l') ! i)"
    from ed have "(?L \<and> container_ready e (g_fontInfo s) i) \<or>
        (slot_skipped (g_fontInfo s ! i) (g_fontInfo (st l') ! i) \<and>
         \<not> (container_ready e (g_fontInfo s) i \<and> fetch_ok e i (g_fontInfo s ! i)) \<and>
         (container_ready e (g_fontInfo s) i \<or> g_fontInfo (st l') ! i = g_fontInfo s ! i))"
      by (simp add: entry_done_def)
    then show "(?L \<and> container_ready e (g_fontInfo s) i \<and> fetch_ok e i (g_fontInfo s ! i)) \<or>
      (\<not> ?L \<and> slot_skipped (g_fontInfo s ! i) (g_fontInfo (st l') ! i) \<and>
       size_info (g_fontInfo (st l') ! i) = 0 \<and>
       \<not> (container_ready e (g_fontInfo s) i \<and> fetch_ok e i (g_fontInfo s ! i)) \<and>
       (container_ready e (g_fontInfo s) i \<or> g_fontInfo (st l') ! i = g_fontInfo s ! i))"
    proof
      assume a: "?L \<and> container_ready e (g_fontInfo s) i"
      then have "fetch_ok e i (g_fontInfo s ! i)" using slot_loaded_fetch by blast
      with a show ?thesis by simp
    next
      assume a: "slot_skipped (g_fontInfo s ! i) (g_fontInfo (st l') ! i) \<and>
         \<not> (container_ready e (g_fontInfo s) i \<and> fetch_ok e i (g_fontInfo s ! i)) \<and>
         (container_ready e (g_fontInfo s) i \<or> g_fontInfo (st l') ! i = g_fontInfo s ! i)"
      then have sz: "size_info (g_fontInfo (st l') ! i) = 0"
        using z0 slot_skipped_size by blast
      have "\<not> ?L"
      proof
        assume ?L
        then have "8 < size_info (g_fontInfo (st l') ! i)" by (rule slot_loaded_size)
        with sz show False by simp
      qed
      with a sz show ?thesis by simp
    qed
  qed
  have c5: "\<forall>i < ?n. slot_loaded e i (length (heap s)) (heap ?s') (g_fontInfo s ! i) (g_fontInfo ?s' ! i) \<or>
        (slot_skipped (g_fontInfo s ! i) (g_fontInfo ?s' ! i) \<and> size_info (g_fontInfo ?s' ! i) = 0)"
    using each by auto
  have op: "\<And>i. open_ok e i (g_fontInfo s ! i) \<Longrightarrow> container_ready e (g_fontInfo s) i"
    by (simp add: container_ready_def)
  have c6: "\<forall>i < ?n. calloc_nca_ctx e \<and> open_ok e i (g_fontInfo s ! i) \<and> fetch_ok e i (g_fontInfo s ! i) \<longrightarrow>
        slot_loaded e i (length (heap s)) (heap ?s') (g_fontInfo s ! i) (g_fontInfo ?s' ! i)"
    using each op by auto
  have c9: "\<forall>i < ?n.
        slot_loaded e i (length (heap s)) (heap ?s') (g_fontInfo s ! i) (g_fontInfo ?s' ! i) \<longleftrightarrow>
        calloc_nca_ctx e \<and> container_ready e (g_fontInfo s) i \<and> fetch_ok e i (g_fontInfo s ! i)"
    using each True by auto
  have c10: "\<forall>i < ?n. \<not> container_ready e (g_fontInfo s) i \<longrightarrow> g_fontInfo ?s' ! i = g_fontInfo s ! i"
    using each by auto
  have c1: "g_bfttfInterfaceInit ?s' = (0 < count l')" by simp
  have c2: "length (g_fontInfo ?s') = ?n" using len by simp
  have c4: "(0 < count l') \<longleftrightarrow> (\<exists>i < ?n. slot_loaded e i (length (heap s)) (heap ?s')
        (g_fontInfo s ! i) (g_fontInfo ?s' ! i))"
    using cnt by simp
  have c7: "\<exists>hx. heap ?s' = heap s @ hx" using hx by simp
  have c8: "\<forall>b. length (heap s) \<le> b \<and> block (heap ?s') b \<noteq> None \<longrightarrow>
        (\<exists>i < ?n. data (g_fontInfo ?s' ! i) = Ptr b 0 \<and> 8 < size_info (g_fontInfo ?s' ! i))"
    using leak by simp
  show ?thesis
    by (intro exI [of _ "0 < count l'"] exI [of _ ?s'] exI [of _ "calls l'"] conjI r c1 c2 c4 c5 c6 c7 c8 c9 c10)
qed

theorem bfttfInitialize_outcome_witness:
  "\<not> g_bfttfInterfaceInit initial_state \<and>
   list_all (\<lambda>fi. size_info fi = 0) (g_fontInfo initial_state) \<and>
   bfttfInitialize (env_first bytes20) initial_state = Some (True, state20, calls_first) \<and>
   g_bfttfInterfaceInit state20 \<and>
   slot_loaded (env_first bytes20) 0 (length (heap initial_state)) (heap state20)
     (g_fontInfo initial_state ! 0) (g_fontInfo state20 ! 0) \<and>
   slot_skipped (g_fontInfo initial_state ! 1) (g_fontInfo state20 ! 1) \<and>
   size_info (g_fontInfo state20 ! 1) = 0 \<and>
   fetch_ok env_nca_fail 0 (g_fontInfo initial_state ! 0) \<and>
   \<not> container_ready env_nca_fail (g_fontInfo initial_state) 0 \<and>
   bfttfInitialize env_nca_fail initial_state = Some (False, initial_state, calls_nca_fail) \<and>
   \<not> slot_loaded env_nca_fail 0 (length (heap initial_state)) (heap initial_state)
       (g_fontInfo initial_state ! 0) (g_fontInfo initial_state ! 0)"
proof -
  have ni: "\<not> g_bfttfInterfaceInit initial_state" by (simp add: initial_state_def)
  have z: "\<forall>fi \<in> set (g_fontInfo initial_state). size_info fi = 0"
    by (simp add: initial_state_def g_fontInfo_init_def)
  have la: "list_all (\<lambda>fi. size_info fi = 0) (g_fontInfo initial_state)"
    using z by (simp add: list_all_iff)
  have ev: "bfttfInitialize (env_first bytes20) initial_state = Some (True, state20, calls_first)"
    by code_simp
  have ok: "calloc_nca_ctx (env_first bytes20) \<and>
      open_ok (env_first bytes20) 0 (g_fontInfo initial_state ! 0) \<and>
      fetch_ok (env_first bytes20) 0 (g_fontInfo initial_state ! 0)"
    by code_simp
  have n0: "0 < length (g_fontInfo initial_state)" and n1: "1 < length (g_fontInfo initial_state)"
    by (simp_all add: initial_state_def g_fontInfo_init_def)
  have sz1: "size_info (g_fontInfo state20 ! 1) = 0" by code_simp
  from bfttfInitialize_outcome [OF ni z, of "env_first bytes20"] obtain r s' c where
    r: "bfttfInitialize (env_first bytes20) initial_state = Some (r, s', c)"
    and f: "g_bfttfInterfaceInit s' = r"
    and ea: "\<forall>i < length (g_fontInfo initial_state).
        slot_loaded (env_first bytes20) i (length (heap initial_state)) (heap s')
          (g_fontInfo initial_state ! i) (g_fontInfo s' ! i) \<or>
        (slot_skipped (g_fontInfo initial_state ! i) (g_fontInfo s' ! i) \<and>
         size_info (g_fontInfo s' ! i) = 0)"
    and ld: "\<forall>i < length (g_fontInfo initial_state).
        calloc_nca_ctx (env_first bytes20) \<and> open_ok (env_first bytes20) i (g_fontInfo initial_state ! i) \<and>
        fetch_ok (env_first bytes20) i (g_fontInfo initial_state ! i) \<longrightarrow>
        slot_loaded (env_first bytes20) i (length (heap initial_state)) (heap s')
          (g_fontInfo initial_state ! i) (g_fontInfo s' ! i)"
    by blast
  from r ev have eq: "r = True" "s' = state20" by simp_all
  have l0: "slot_loaded (env_first bytes20) 0 (length (heap initial_state)) (heap state20)
     (g_fontInfo initial_state ! 0) (g_fontInfo state20 ! 0)"
    using ld n0 ok eq by blast
  have "\<not> slot_loaded (env_first bytes20) 1 (length (heap initial_state)) (heap state20)
     (g_fontInfo initial_state ! 1) (g_fontInfo state20 ! 1)"
    using sz1 slot_loaded_size [of "env_first bytes20" 1 "length (heap initial_state)" "heap state20"
        "g_fontInfo initial_state ! 1" "g_fontInfo state20 ! 1"] by auto
  then have s1: "slot_skipped (g_fontInfo initial_state ! 1) (g_fontInfo state20 ! 1)"
    using ea n1 eq by blast
  have fl: "g_bfttfInterfaceInit state20" using f eq by simp
  have fo: "fetch_ok env_nca_fail 0 (g_fontInfo initial_state ! 0)" by code_simp
  have nr: "\<not> container_ready env_nca_fail (g_fontInfo initial_state) 0" by code_simp
  have ev2: "bfttfInitialize env_nca_fail initial_state = Some (False, initial_state, calls_nca_fail)"
    by code_simp
  from bfttfInitialize_outcome [OF ni z, of env_nca_fail] obtain r2 s2 c2 where
    r2: "bfttfInitialize env_nca_fail initial_state = Some (r2, s2, c2)"
    and iff2: "\<forall>i < length (g_fontInfo initial_state).
        slot_loaded env_nca_fail i (length (heap initial_state)) (heap s2)
          (g_fontInfo initial_state ! i) (g_fontInfo s2 ! i) \<longleftrightarrow>
        calloc_nca_ctx env_nca_fail \<and> container_ready env_nca_fail (g_fontInfo initial_state) i \<and>
        fetch_ok env_nca_fail i (g_fontInfo initial_state ! i)"
    by blast
  from r2 ev2 have eq2: "s2 = initial_state" by simp
  have nl: "\<not> slot_loaded env_nca_fail 0 (length (heap initial_state)) (heap initial_state)
       (g_fontInfo initial_state ! 0) (g_fontInfo initial_state ! 0)"
    using iff2 n0 nr eq2 by blast
  show ?thesis by (intro conjI ni la ev fl l0 s1 sz1 fo nr ev2 nl)
qed

lemma bfttfInitialize_flag:
  assumes "bfttfInitialize e s = Some (r, s', c)"
  shows "g_bfttfInterfaceInit s' = r"
proof (cases "g_bfttfInterfaceInit s")
  case True
  then show ?thesis using assms by (simp add: bfttfInitialize_def)
next
  case f: False
  show ?thesis
  proof (cases "calloc_nca_ctx e")
    case False
    then show ?thesis using assms f by (simp add: bfttfInitialize_def)
  next
    case True
    show ?thesis
    proof (cases "init_loop e 0 (g_fontInfoCount s) \<lparr>count = 0, prev_title_id = 0, st = s, calls = []\<rparr>")
      case None
      then show ?thesis using assms f True by (simp add: bfttfInitialize_def)
    next
      case (Some l)
      then show ?thesis using assms f True by (auto simp add: bfttfInitialize_def)
    qed
  qed
qed

text \<open>
  C7, as stated, fails: a first call in which no title is found returns false and leaves
  the flag clear, and a second call then does the whole work and, the first font being
  available now, returns true with the slot filled.
\<close>

theorem bfttfInitialize_twice_counterexample:
  "bfttfInitialize env_fail initial_state = Some (False, initial_state, calls_fail) \<and>
   bfttfInitialize (env_first bytes20) initial_state = Some (True, state20, calls_first) \<and>
   state20 \<noteq> initial_state \<and> calls_first \<noteq> []"
  by code_simp

text \<open>
  C7, amended. When the first call returned true, a second call returns true, makes no
  call to the title, NCA or RomFS code and leaves the state as it is. When the first call
  returned false the flag is clear afterwards, so the second call is not cut short.
\<close>

theorem bfttfInitialize_twice:
  "(bfttfInitialize e1 s = Some (True, s1, c1) \<longrightarrow> bfttfInitialize e2 s1 = Some (True, s1, [])) \<and>
   (bfttfInitialize e1 s = Some (False, s1, c1) \<longrightarrow> \<not> g_bfttfInterfaceInit s1)"
proof (intro conjI impI)
  assume "bfttfInitialize e1 s = Some (True, s1, c1)"
  then have "g_bfttfInterfaceInit s1" by (simp add: bfttfInitialize_flag)
  then show "bfttfInitialize e2 s1 = Some (True, s1, [])" by (simp add: bfttfInitialize_def)
next
  assume "bfttfInitialize e1 s = Some (False, s1, c1)"
  then show "\<not> g_bfttfInterfaceInit s1" by (simp add: bfttfInitialize_flag)
qed

theorem bfttfInitialize_twice_witness:
  "bfttfInitialize (env_first bytes20) initial_state = Some (True, state20, calls_first) \<and>
   bfttfInitialize env_fail state20 = Some (True, state20, []) \<and>
   bfttfInitialize env_fail initial_state = Some (False, initial_state, calls_fail) \<and>
   \<not> g_bfttfInterfaceInit initial_state"
proof -
  have 1: "bfttfInitialize (env_first bytes20) initial_state = Some (True, state20, calls_first)"
    by code_simp
  have 2: "bfttfInitialize env_fail initial_state = Some (False, initial_state, calls_fail)"
    by code_simp
  note a = mp [OF conjunct1 [OF bfttfInitialize_twice [of "env_first bytes20" initial_state state20 calls_first env_fail]] 1]
  note b = mp [OF conjunct2 [OF bfttfInitialize_twice [of env_fail initial_state initial_state calls_fail env_fail]] 2]
  show ?thesis using 1 2 a b by (intro conjI)
qed

text \<open>
  C3, as stated, fails: the title of the second and third table entry is not found for
  the second entry; the third entry, which has the same title ID, is not skipped: the
  title is looked up again, found this time, and the font is fetched and decoded.
\<close>

theorem bfttfInitialize_reopen_counterexample:
  "title_id (g_fontInfo_init ! 1) = title_id (g_fontInfo_init ! 2) \<and>
   \<not> titleGetInfoFromStorageByTitleId env_retry 1 (title_id (g_fontInfo_init ! 1)) \<and>
   bfttfInitialize env_retry initial_state = Some (True, state_retry, calls_retry) \<and>
   count_list calls_retry (Call_titleGetInfoFromStorageByTitleId (title_id (g_fontInfo_init ! 2))) = 2 \<and>
   size_info (g_fontInfo state_retry ! 2) = 20"
  by code_simp

lemma init_body_open_attempt:
  assumes ne: "title_id (g_fontInfo (st l) ! j) \<noteq> prev_title_id l"
  shows "\<exists>l' evs. init_body e j l = Some l' \<and>
      calls l' = calls l @ Call_titleGetInfoFromStorageByTitleId (title_id (g_fontInfo (st l) ! j)) # evs \<and>
      (open_ok e j (g_fontInfo (st l) ! j) \<and> fetch_ok e j (g_fontInfo (st l) ! j) \<longrightarrow>
         count l' = count l + 1 \<and> prev_title_id l' = title_id (g_fontInfo (st l) ! j))"
proof (cases "open_ok e j (g_fontInfo (st l) ! j)")
  case False
  let ?tid = "title_id (g_fontInfo (st l) ! j)"
  from False obtain evs where
    "open_container e j ?tid = (False, Call_titleGetInfoFromStorageByTitleId ?tid # evs)"
    using open_container_fail [of e j ?tid] by (auto simp: open_ok_def)
  then have "init_body e j l = Some (l\<lparr>calls := calls l @ Call_titleGetInfoFromStorageByTitleId ?tid # evs\<rparr>)"
    using ne by (simp add: init_body_def Let_def)
  then show ?thesis using False
    by (intro exI [of _ "l\<lparr>calls := calls l @ Call_titleGetInfoFromStorageByTitleId ?tid # evs\<rparr>"]
        exI [of _ evs]) simp
next
  case True
  let ?fi = "g_fontInfo (st l) ! j"
  let ?tid = "title_id ?fi"
  let ?l0 = "l\<lparr>prev_title_id := ?tid,
             calls := calls l @ [Call_titleGetInfoFromStorageByTitleId ?tid,
                  Call_ncaInitializeContext ?tid, Call_romfsInitializeContext ?tid]\<rparr>"
  have "open_container e j ?tid =
      (True, [Call_titleGetInfoFromStorageByTitleId ?tid, Call_ncaInitializeContext ?tid,
              Call_romfsInitializeContext ?tid])"
    using True by (intro open_container_ok) (simp add: open_ok_def)
  then have b: "init_body e j l = load_font e j ?l0"
    using ne by (simp add: init_body_def Let_def)
  show ?thesis
  proof (cases "fetch_ok e j ?fi")
    case f: True
    then have "fetch_ok e j (g_fontInfo (st ?l0) ! j)" by simp
    from load_font_ok [OF this] obtain l' cs where "load_font e j ?l0 = Some l'"
      "count l' = count l + 1" "prev_title_id l' = ?tid" "calls l' = calls ?l0 @ cs"
      by auto
    then show ?thesis using b
      by (intro exI [of _ l'] exI [of _ "[Call_ncaInitializeContext ?tid,
            Call_romfsInitializeContext ?tid] @ cs"]) simp
  next
    case f: False
    then have "\<not> fetch_ok e j (g_fontInfo (st ?l0) ! j)" by simp
    from load_font_fail [OF this] obtain l' cs where "load_font e j ?l0 = Some l'"
      "calls l' = calls ?l0 @ cs"
      by auto
    then show ?thesis using b f
      by (intro exI [of _ l'] exI [of _ "[Call_ncaInitializeContext ?tid,
            Call_romfsInitializeContext ?tid] @ cs"]) simp
  qed
qed

text \<open>
  C3, amended. When the container open fails for an entry whose title ID differs from the
  remembered one, the entry is skipped and nothing but the list of calls changes: the
  remembered title ID stays what it was. So every later entry whose title ID differs from
  the remembered one, an entry that shares the title ID of the failed one included, makes
  a fresh open attempt, starting with the title lookup, and is fetched and counted when
  that attempt and the fetch succeed. Only an entry whose title ID equals the remembered
  one, that of the last container opened with success, goes on without an open attempt.
\<close>

theorem init_body_open_failure:
  assumes "title_id (g_fontInfo (st l) ! i) \<noteq> prev_title_id l"
    and "\<not> open_ok e i (g_fontInfo (st l) ! i)"
  shows "\<exists>l1 evs. init_body e i l = Some l1 \<and>
      l1 = l\<lparr>calls := calls l @ Call_titleGetInfoFromStorageByTitleId (title_id (g_fontInfo (st l) ! i)) # evs\<rparr> \<and>
      (\<forall>j. title_id (g_fontInfo (st l) ! j) \<noteq> prev_title_id l \<longrightarrow>
         (\<exists>l2 evs2. init_body e j l1 = Some l2 \<and>
            calls l2 = calls l1 @ Call_titleGetInfoFromStorageByTitleId (title_id (g_fontInfo (st l) ! j)) # evs2 \<and>
            (open_ok e j (g_fontInfo (st l) ! j) \<and> fetch_ok e j (g_fontInfo (st l) ! j) \<longrightarrow>
               count l2 = count l + 1 \<and> prev_title_id l2 = title_id (g_fontInfo (st l) ! j)))) \<and>
      (\<forall>j. title_id (g_fontInfo (st l) ! j) = prev_title_id l \<longrightarrow>
         init_body e j l1 = load_font e j l1)"
proof -
  let ?tid = "title_id (g_fontInfo (st l) ! i)"
  from assms(2) obtain evs where
    "open_container e i ?tid = (False, Call_titleGetInfoFromStorageByTitleId ?tid # evs)"
    using open_container_fail [of e i ?tid] by (auto simp: open_ok_def)
  then have b: "init_body e i l = Some (l\<lparr>calls := calls l @ Call_titleGetInfoFromStorageByTitleId ?tid # evs\<rparr>)"
    using assms(1) by (simp add: init_body_def Let_def)
  let ?l1 = "l\<lparr>calls := calls l @ Call_titleGetInfoFromStorageByTitleId ?tid # evs\<rparr>"
  have re: "\<forall>j. title_id (g_fontInfo (st l) ! j) \<noteq> prev_title_id l \<longrightarrow>
         (\<exists>l2 evs2. init_body e j ?l1 = Some l2 \<and>
            calls l2 = calls ?l1 @ Call_titleGetInfoFromStorageByTitleId (title_id (g_fontInfo (st l) ! j)) # evs2 \<and>
            (open_ok e j (g_fontInfo (st l) ! j) \<and> fetch_ok e j (g_fontInfo (st l) ! j) \<longrightarrow>
               count l2 = count l + 1 \<and> prev_title_id l2 = title_id (g_fontInfo (st l) ! j)))"
  proof (intro allI impI)
    fix j assume "title_id (g_fontInfo (st l) ! j) \<noteq> prev_title_id l"
    then have "title_id (g_fontInfo (st ?l1) ! j) \<noteq> prev_title_id ?l1" by simp
    from init_body_open_attempt [OF this, of e]
    show "\<exists>l2 evs2. init_body e j ?l1 = Some l2 \<and>
            calls l2 = calls ?l1 @ Call_titleGetInfoFromStorageByTitleId (title_id (g_fontInfo (st l) ! j)) # evs2 \<and>
            (open_ok e j (g_fontInfo (st l) ! j) \<and> fetch_ok e j (g_fontInfo (st l) ! j) \<longrightarrow>
               count l2 = count l + 1 \<and> prev_title_id l2 = title_id (g_fontInfo (st l) ! j))"
      by simp
  qed
  have same: "\<forall>j. title_id (g_fontInfo (st l) ! j) = prev_title_id l \<longrightarrow>
         init_body e j ?l1 = load_font e j ?l1"
    by (simp add: init_body_def Let_def)
  show ?thesis using b re same by blast
qed

theorem init_body_open_failure_witness:
  "title_id (g_fontInfo (st locals_retry1) ! 1) \<noteq> prev_title_id locals_retry1 \<and>
   title_id (g_fontInfo (st locals_retry1) ! 2) = title_id (g_fontInfo (st locals_retry1) ! 1) \<and>
   \<not> open_ok env_retry 1 (g_fontInfo (st locals_retry1) ! 1) \<and>
   init_body env_retry 1 locals_retry1 = Some locals_retry2 \<and>
   init_body env_retry 2 locals_retry2 = Some locals_retry3 \<and>
   count locals_retry3 = count locals_retry1 + 1 \<and>
   prev_title_id locals_retry3 = title_id (g_fontInfo (st locals_retry1) ! 2)"
proof -
  have h1: "title_id (g_fontInfo (st locals_retry1) ! 1) \<noteq> prev_title_id locals_retry1" by code_simp
  have h2: "\<not> open_ok env_retry 1 (g_fontInfo (st locals_retry1) ! 1)" by code_simp
  have h3: "title_id (g_fontInfo (st locals_retry1) ! 2) = title_id (g_fontInfo (st locals_retry1) ! 1)"
    by code_simp
  have ok: "open_ok env_retry 2 (g_fontInfo (st locals_retry1) ! 2) \<and>
      fetch_ok env_retry 2 (g_fontInfo (st locals_retry1) ! 2)" by code_simp
  have e1: "init_body env_retry 1 locals_retry1 = Some locals_retry2" by code_simp
  have e2: "init_body env_retry 2 locals_retry2 = Some locals_retry3" by code_simp
  from init_body_open_failure [OF h1 h2] obtain l1 where
    b1: "init_body env_retry 1 locals_retry1 = Some l1"
    and re: "\<forall>j. title_id (g_fontInfo (st locals_retry1) ! j) \<noteq> prev_title_id locals_retry1 \<longrightarrow>
         (\<exists>l2 evs2. init_body env_retry j l1 = Some l2 \<and>
            calls l2 = calls l1 @ Call_titleGetInfoFromStorageByTitleId (title_id (g_fontInfo (st locals_retry1) ! j)) # evs2 \<and>
            (open_ok env_retry j (g_fontInfo (st locals_retry1) ! j) \<and>
             fetch_ok env_retry j (g_fontInfo (st locals_retry1) ! j) \<longrightarrow>
               count l2 = count locals_retry1 + 1 \<and>
               prev_title_id l2 = title_id (g_fontInfo (st locals_retry1) ! j)))"
    by blast
  from b1 e1 have l1: "l1 = locals_retry2" by simp
  from h1 h3 have "title_id (g_fontInfo (st locals_retry1) ! 2) \<noteq> prev_title_id locals_retry1" by simp
  with re obtain l2 where b2: "init_body env_retry 2 l1 = Some l2"
    and c: "open_ok env_retry 2 (g_fontInfo (st locals_retry1) ! 2) \<and>
             fetch_ok env_retry 2 (g_fontInfo (st locals_retry1) ! 2) \<longrightarrow>
               count l2 = count locals_retry1 + 1 \<and>
               prev_title_id l2 = title_id (g_fontInfo (st locals_retry1) ! 2)"
    by blast
  from b2 l1 e2 have "l2 = locals_retry3" by simp
  with c ok have r: "count locals_retry3 = count locals_retry1 + 1"
    "prev_title_id locals_retry3 = title_id (g_fontInfo (st locals_retry1) ! 2)" by simp_all
  show ?thesis by (intro conjI h1 h3 h2 e1 e2 r)
qed

end
